theory Spec2Isabelle
  imports Main "HOL-Library.Word" "HOL-Library.AList"
begin

section \<open>Data model of the chain notifier\<close>

text \<open>
  The embedded code is the bitcoind chain notifier (package \<open>bitcoindnotify\<close>, type
  \<open>BitcoindNotifier\<close>) together with the debug accessors of the three notifiers.

  Go's \<open>int32\<close>, \<open>uint32\<close>, \<open>int64\<close> and \<open>uint64\<close> are words: \<open>+\<close> wraps, a
  signed comparison \<open>a < b\<close> on \<open>int32\<close> is \<open>a <s b\<close> and \<open>sint\<close> reads the signed
  value. The conversion \<open>uint32(h)\<close> of an \<open>int32\<close> keeps the bits, so it is the
  identity on \<open>32 word\<close>; \<open>int64(h)\<close> of an \<open>int32\<close> is \<open>scast\<close> and of a
  \<open>uint32\<close> is \<open>ucast\<close>. A \<open>chainhash.Hash\<close> is a 32-byte array compared by value;
  a \<open>*chainhash.Hash\<close> that the code tests against \<open>nil\<close> is an \<open>option\<close>.
\<close>

type_synonym hash = "256 word"
type_synonym int32 = "32 word"
type_synonym uint32 = "32 word"
type_synonym int64 = "64 word"
type_synonym uint64 = "64 word"

text \<open>
  Errors are values. \<open>ErrChainNotifierShuttingDown\<close> is the package-level sentinel,
  \<open>ErrorsNew\<close> is a fresh \<open>errors.New(msg)\<close>, \<open>Errorf\<close> is \<open>fmt.Errorf\<close> wrapping a cause
  (the formatted arguments other than the cause are left out of the message),
  \<open>RPCError\<close> is a \<open>*btcjson.RPCError\<close> with its code and \<open>BackendError\<close> any other
  error of the chain backend.
\<close>

datatype error =
    ErrChainNotifierShuttingDown
  | ErrorsNew string
  | Errorf string error
  | RPCError int
  | BackendError string

text \<open>
  What ends a goroutine without a returned error: a runtime panic (nil dereference,
  send on or close of a closed channel, close of a nil channel), or an operation
  that cannot proceed in the present state (a send on a full or nil channel).
\<close>

datatype fault = Panic string | Blocks

record BlockHeader =
  PrevBlock :: hash
  Timestamp :: int

record OutPoint =
  opHash :: hash
  opIndex :: uint32

text \<open>
  A \<open>wire.MsgTx\<close>: its inputs, each reduced to the outpoint it spends
  (\<open>txIn.PreviousOutPoint\<close>), and the value that \<open>TxHash()\<close> computes for it (hashing
  is outside the repository).
\<close>

record MsgTx =
  TxIn :: "OutPoint list"
  TxHash :: hash

record MsgBlock =
  Header :: BlockHeader
  Transactions :: "MsgTx list"
  BlockHash :: hash

record BlockEpoch =
  Height :: int32
  Hash :: "hash option"

record TxConfirmation =
  tcBlockHash :: hash
  BlockHeight :: uint32
  TxIndex :: uint32

record SpendDetail =
  SpentOutPoint :: OutPoint
  SpenderTxHash :: hash
  SpendingTx :: MsgTx
  SpenderInputIndex :: uint32
  SpendingHeight :: int32

text \<open>\<open>wtxmgr.BlockMeta\<close>, \<open>wtxmgr.TxRecord\<close> and \<open>chain.RelevantTx\<close>.\<close>

record BlockMeta =
  bmHash :: hash
  bmHeight :: int32
  bmTime :: int

record TxRecord =
  trMsgTx :: MsgTx
  trHash :: hash
  Received :: int

record RelevantTx =
  rtTxRecord :: TxRecord
  Block :: "BlockMeta option"

text \<open>Results of the backend's verbose queries, reduced to the fields read.\<close>

record TxRawResult =
  trrBlockHash :: string

record BlockVerbose =
  bvTx :: "string list"
  bvHeight :: int64

text \<open>
  The chain backend \<open>b.chainConn\<close> and the two functions of package \<open>chainhash\<close>
  that the notifier calls (\<open>NewHashFromStr\<close> and \<open>Hash.String\<close>), taken as
  parameters: they are outside the repository. Every call can fail.
  \<open>GetBlockHeaderVerbose\<close> and \<open>GetBlockHeight\<close> give a height,
  \<open>GetBestBlock\<close> a hash and a height, \<open>GetTxOut\<close> an optional output (reduced to
  its presence), \<open>GetRawTransactionVerbose\<close> both a possibly nil result and a
  possibly nil error, as the code inspects both.
\<close>

record chainConn =
  ConnStart :: "error option"
  NotifyBlocks :: "error option"
  NotifySpent :: "OutPoint list \<Rightarrow> error option"
  GetBestBlock :: "error + (hash \<times> int32)"
  GetBlockHash :: "int64 \<Rightarrow> error + hash"
  GetBlockHeight :: "hash \<Rightarrow> error + int32"
  GetBlockHeader :: "hash \<Rightarrow> error + BlockHeader"
  GetBlockHeaderVerbose :: "hash \<Rightarrow> error + int32"
  GetBlock :: "hash \<Rightarrow> error + MsgBlock"
  GetBlockVerbose :: "hash \<Rightarrow> error + BlockVerbose"
  GetRawTransactionVerbose :: "hash \<Rightarrow> TxRawResult option \<times> error option"
  GetTxOut :: "hash \<Rightarrow> uint32 \<Rightarrow> bool \<Rightarrow> error + unit option"
  NewHashFromStr :: "string \<Rightarrow> error + hash"
  HashString :: "hash \<Rightarrow> string"

definition reorgSafetyLimit :: uint32 where
  "reorgSafetyLimit = 100"

text \<open>\<open>btcjson.ErrRPCNoTxInfo\<close>, a constant of the btcjson package.\<close>

definition ErrRPCNoTxInfo :: int where
  "ErrRPCNoTxInfo = - 5"

subsection \<open>Confirmation notifier\<close>

text \<open>
  \<open>chainntnfs.TxConfNotifier\<close> is code of the repository that is not among the
  sources at hand. Its state is a type parameter \<open>'t\<close> and its operations are
  parameters. An operation that returns an error is taken to leave the state as it
  was.
\<close>

record ConfNtfn =
  TxID :: hash
  NumConfirmations :: uint32
  Event :: nat

record confirmationNotification =
  cnConfNtfn :: ConfNtfn
  cnHeightHint :: uint32

record 't TxConfNotifierOps =
  NewTxConfNotifier :: "uint32 \<Rightarrow> uint32 \<Rightarrow> 't"
  ConnectTip :: "'t \<Rightarrow> hash \<Rightarrow> uint32 \<Rightarrow> MsgTx list \<Rightarrow> error + 't"
  DisconnectTip :: "'t \<Rightarrow> uint32 \<Rightarrow> error + 't"
  Register :: "'t \<Rightarrow> ConfNtfn \<Rightarrow> TxConfirmation option \<Rightarrow> error + 't"
  TearDown :: "'t \<Rightarrow> 't"

text \<open>
  Modelled from the spec: the height discipline of \<open>TxConfNotifier\<close>, whose source
  is missing. The state is the committed tip height only; \<open>connect_tip\<close> requires
  \<open>height == current_height + 1\<close> and \<open>disconnect_tip\<close> requires
  \<open>height == current_height\<close>, else they fail. It instantiates the parameters in
  the concrete runs below.
\<close>

definition heightOnlyTxConfNotifier :: "uint32 TxConfNotifierOps" where
  "heightOnlyTxConfNotifier =
    \<lparr>NewTxConfNotifier = (\<lambda>startHeight safetyDepth. startHeight),
     ConnectTip = (\<lambda>current blockHash blockHeight txns.
        if blockHeight = current + 1 then Inr blockHeight
        else Inl (ErrorsNew ''Received blocks out of order'')),
     DisconnectTip = (\<lambda>current blockHeight.
        if blockHeight = current then Inr (current - 1)
        else Inl (ErrorsNew ''Received blocks out of order'')),
     Register = (\<lambda>current ntfn txConf. Inr current),
     TearDown = (\<lambda>current. current)\<rparr>"

subsection \<open>Channels and registrations\<close>

text \<open>
  A spend channel is \<open>make(chan *SpendDetail, 1)\<close>, shared by the notifier and the
  subscriber, so the channels live in a store and a registration holds the address.
  \<open>buf\<close> holds the values sent and not yet received, \<open>recvd\<close> the values the
  subscriber has received, oldest first. An address outside the store stands for a
  nil channel.
\<close>

record chan =
  buf :: "SpendDetail list"
  closed :: bool
  recvd :: "SpendDetail list"

definition makeChan :: chan where
  "makeChan = \<lparr>buf = [], closed = False, recvd = []\<rparr>"

definition chanSend :: "chan list \<Rightarrow> nat \<Rightarrow> SpendDetail \<Rightarrow> fault + chan list" where
  "chanSend cs a v =
    (if a < length cs then
       (if closed (cs ! a) then Inl (Panic ''send on closed channel'')
        else if length (buf (cs ! a)) < 1 then Inr (cs[a := (cs ! a)\<lparr>buf := buf (cs ! a) @ [v]\<rparr>])
        else Inl Blocks)
     else Inl Blocks)"

definition chanClose :: "chan list \<Rightarrow> nat \<Rightarrow> fault + chan list" where
  "chanClose cs a =
    (if a < length cs then
       (if closed (cs ! a) then Inl (Panic ''close of closed channel'')
        else Inr (cs[a := (cs ! a)\<lparr>closed := True\<rparr>]))
     else Inl (Panic ''close of nil channel''))"

text \<open>The subscriber takes the oldest buffered value, if there is one.\<close>

definition chanRecv :: "chan list \<Rightarrow> nat \<Rightarrow> chan list" where
  "chanRecv cs a =
    (if a < length cs then
       (case buf (cs ! a) of
          [] \<Rightarrow> cs
        | v # rest \<Rightarrow> cs[a := (cs ! a)\<lparr>buf := rest, recvd := recvd (cs ! a) @ [v]\<rparr>])
     else cs)"

record spendNotification =
  targetOutpoint :: OutPoint
  spendChan :: nat
  spendID :: uint64
  heightHint :: uint32

text \<open>
  Modelled from the spec: \<open>chainntnfs.ConcurrentQueue\<close>, whose source is missing, is
  an unbounded FIFO whose producers never block and whose elements are delivered in
  insertion order. \<open>epochQueue\<close> is the list of the epochs put into \<open>ChanIn()\<close>
  so far, oldest first: the sequence the relay goroutine delivers to the subscriber.
  The three flags record \<open>epochQueue.Stop()\<close> and the closing of \<open>cancelChan\<close> and
  \<open>epochChan\<close>.
\<close>

record blockEpochRegistration =
  epochID :: uint64
  epochQueue :: "BlockEpoch list"
  queueStopped :: bool
  regBestBlock :: "BlockEpoch option"
  cancelChanClosed :: bool
  epochChanClosed :: bool

text \<open>
  The notifier. The two Go maps are association lists with the maps' semantics
  (\<open>map_of\<close> to look up, \<open>AList.update\<close> to assign, \<open>AList.delete\<close> to delete); a
  \<open>range\<close> loop visits the entries in list order, one of the orders Go may choose.
  \<open>quit\<close> is true once the quit channel is closed, \<open>dispatcherRunning\<close> while the
  goroutine of \<open>notificationDispatcher\<close> is alive (the wait group), \<open>chans\<close> is the
  store of spend channels and \<open>errorLog\<close> collects the errors given to
  \<open>chainntnfs.Log.Error\<close> (other log lines are not modelled).
\<close>

record 't BitcoindNotifier =
  spendClientCounter :: uint64
  epochClientCounter :: uint64
  started :: int32
  stopped :: int32
  spendNotifications :: "(OutPoint \<times> (uint64 \<times> spendNotification) list) list"
  txConfNotifier :: 't
  blockEpochClients :: "(uint64 \<times> blockEpochRegistration) list"
  bestBlock :: BlockEpoch
  quit :: bool
  dispatcherRunning :: bool
  chans :: "chan list"
  errorLog :: "error list"

datatype cancelMsg = SpendCancel OutPoint uint64 | EpochCancel uint64

datatype registerMsg =
    RegSpend spendNotification
  | RegConf confirmationNotification
  | RegEpoch blockEpochRegistration
  | RegRelevantTx RelevantTx

datatype chainNtfn =
    BlockConnected int32 hash
  | BlockDisconnected int32 hash
  | ChainRelevantTx RelevantTx

datatype event =
    CancelMsg cancelMsg
  | RegisterMsg registerMsg
  | ChainNtfn chainNtfn

section \<open>The common-ancestor walker\<close>

text \<open>
  \<open>getCommonBlockAncestorHeight\<close>: the loop \<open>for reorgHash != chainHash\<close> has no
  bound in the source, so the function is partial: \<open>None\<close> is a walk that never ends.
\<close>

partial_function (option) getCommonBlockAncestorHeight ::
  "chainConn \<Rightarrow> hash \<Rightarrow> hash \<Rightarrow> (error + int32) option"
where
  "getCommonBlockAncestorHeight c reorgHash chainHash =
    (if reorgHash \<noteq> chainHash then
       (case GetBlockHeader c reorgHash of
          Inl err \<Rightarrow> Some (Inl (Errorf ''unable to get header for hash'' err))
        | Inr reorgHeader \<Rightarrow>
           (case GetBlockHeader c chainHash of
              Inl err \<Rightarrow> Some (Inl (Errorf ''unable to get header for hash'' err))
            | Inr chainHeader \<Rightarrow>
                getCommonBlockAncestorHeight c (PrevBlock reorgHeader) (PrevBlock chainHeader)))
     else
       (case GetBlockHeaderVerbose c chainHash of
          Inl err \<Rightarrow> Some (Inl (Errorf ''unable to get verbose header for hash'' err))
        | Inr height \<Rightarrow> Some (Inr height)))"

text \<open>
  The walk as the specification words it, with an explicit budget of iterations:
  replace both hashes by their predecessors in lockstep until they are equal; the
  result is the common hash, or \<open>None\<close> when the budget is used up or a header is
  missing.
\<close>

fun lockstepWalk :: "chainConn \<Rightarrow> nat \<Rightarrow> hash \<Rightarrow> hash \<Rightarrow> hash option" where
  "lockstepWalk c 0 a b = (if a = b then Some a else None)"
| "lockstepWalk c (Suc n) a b =
    (if a = b then Some a
     else (case GetBlockHeader c a of
             Inl err \<Rightarrow> None
           | Inr ha \<Rightarrow>
              (case GetBlockHeader c b of
                 Inl err \<Rightarrow> None
               | Inr hb \<Rightarrow> lockstepWalk c n (PrevBlock ha) (PrevBlock hb))))"

text \<open>The verbose header lookup that ends the walk.\<close>

definition heightOfCommon :: "chainConn \<Rightarrow> hash \<Rightarrow> error + int32" where
  "heightOfCommon c h =
    (case GetBlockHeaderVerbose c h of
       Inl err \<Rightarrow> Inl (Errorf ''unable to get verbose header for hash'' err)
     | Inr height \<Rightarrow> Inr height)"

text \<open>A backend that answers nothing, the base of the concrete backends below.\<close>

definition noBackend :: chainConn where
  "noBackend =
    \<lparr>ConnStart = None,
     NotifyBlocks = None,
     NotifySpent = (\<lambda>ops. None),
     GetBestBlock = Inl (BackendError ''no best block''),
     GetBlockHash = (\<lambda>h. Inl (BackendError ''no hash'')),
     GetBlockHeight = (\<lambda>h. Inl (BackendError ''no height'')),
     GetBlockHeader = (\<lambda>h. Inl (BackendError ''no header'')),
     GetBlockHeaderVerbose = (\<lambda>h. Inl (BackendError ''no verbose header'')),
     GetBlock = (\<lambda>h. Inl (BackendError ''no block'')),
     GetBlockVerbose = (\<lambda>h. Inl (BackendError ''no verbose block'')),
     GetRawTransactionVerbose = (\<lambda>h. (None, Some (RPCError ErrRPCNoTxInfo))),
     GetTxOut = (\<lambda>h i m. Inl (BackendError ''no utxo set'')),
     NewHashFromStr = (\<lambda>s. Inl (BackendError ''bad hash string'')),
     HashString = (\<lambda>h. [])\<rparr>"

text \<open>
  A backend with two forks of 101 blocks each above a common block: the common block
  has hash 5 and height 0, the block of height \<open>k\<close> has hash \<open>1000 + k\<close> on the first
  fork and \<open>2000 + k\<close> on the second.
\<close>

definition deepForkHeader :: "hash \<Rightarrow> error + BlockHeader" where
  "deepForkHeader h =
    (if h = 5 then Inl (BackendError ''no header'')
     else if h = 1001 \<or> h = 2001 then Inr \<lparr>PrevBlock = 5, Timestamp = 0\<rparr>
     else Inr \<lparr>PrevBlock = h - 1, Timestamp = 0\<rparr>)"

definition deepForkHeight :: "hash \<Rightarrow> error + int32" where
  "deepForkHeight h =
    (if h = 5 then Inr 0 else Inl (BackendError ''no verbose header''))"

definition deepFork :: chainConn where
  "deepFork =
    noBackend\<lparr>GetBlockHeader := deepForkHeader, GetBlockHeaderVerbose := deepForkHeight\<rparr>"

section \<open>Block epochs and block connection\<close>

text \<open>
  The \<open>select\<close> of \<open>notifyBlockEpochs\<close> has three cases for each client: the send
  to the client's queue, \<open><-epochClient.cancelChan\<close> and \<open><-b.quit\<close>. The send can
  always proceed (the queue's input does not block), the second case when the
  client's \<open>cancelChan\<close> is closed, the third when \<open>quit\<close> is closed. When more than
  one case can proceed Go chooses one of them; the choice is a parameter, which
  names for a client and an epoch the case to take if it can proceed.
\<close>

datatype epochCase = EpochSend | EpochCancelled | EpochQuit

type_synonym epochSched = "uint64 \<Rightarrow> BlockEpoch \<Rightarrow> epochCase"

definition selectEpochCase :: "bool \<Rightarrow> bool \<Rightarrow> epochCase \<Rightarrow> epochCase" where
  "selectEpochCase cancelClosed quitClosed choice =
    (if choice = EpochCancelled \<and> cancelClosed then EpochCancelled
     else if choice = EpochQuit \<and> quitClosed then EpochQuit
     else EpochSend)"

text \<open>
  \<open>notifyBlockEpochs\<close> goes through the registered clients; \<open>quitClosed\<close> is the
  state of \<open>b.quit\<close>. The epoch is put into the queue of a client when the send
  is the case taken; the other two cases do nothing.
\<close>

definition notifyBlockEpochs ::
  "epochSched \<Rightarrow> bool \<Rightarrow> int32 \<Rightarrow> hash \<Rightarrow> (uint64 \<times> blockEpochRegistration) list
     \<Rightarrow> (uint64 \<times> blockEpochRegistration) list" where
  "notifyBlockEpochs sched quitClosed newHeight newSha clients =
    (let epoch = \<lparr>Height = newHeight, Hash = Some newSha\<rparr>
     in map (\<lambda>(eid, epochClient).
              (case selectEpochCase (cancelChanClosed epochClient) quitClosed (sched eid epoch) of
                 EpochSend \<Rightarrow>
                   (eid, epochClient\<lparr>epochQueue := epochQueue epochClient @ [epoch]\<rparr>)
               | EpochCancelled \<Rightarrow> (eid, epochClient)
               | EpochQuit \<Rightarrow> (eid, epochClient)))
            clients)"

definition handleBlockConnected ::
  "epochSched \<Rightarrow> 't TxConfNotifierOps \<Rightarrow> chainConn \<Rightarrow> int32 \<Rightarrow> hash \<Rightarrow> 't BitcoindNotifier
     \<Rightarrow> error + 't BitcoindNotifier" where
  "handleBlockConnected sched ops c height hash b =
    (case GetBlock c hash of
       Inl err \<Rightarrow> Inl (Errorf ''unable to get block'' err)
     | Inr rawBlock \<Rightarrow>
        (case ConnectTip ops (txConfNotifier b) hash height (Transactions rawBlock) of
           Inl err \<Rightarrow> Inl (Errorf ''unable to connect tip'' err)
         | Inr tcn \<Rightarrow>
            Inr (b\<lparr>txConfNotifier := tcn,
                   blockEpochClients := notifyBlockEpochs sched (quit b) height hash (blockEpochClients b)\<rparr>)))"

text \<open>
  The first half of \<open>catchUpOnMissedBlocks\<close> and of \<open>catchUpClientOnBlocks\<close> is the
  same code: the height at which the replay starts, for a best block \<open>bb\<close> (the
  notifier's own, or the client's).
\<close>

definition catchUpStartingHeight :: "chainConn \<Rightarrow> BlockEpoch \<Rightarrow> (error + int32) option" where
  "catchUpStartingHeight c bb =
    (case GetBlockHash c (scast (Height bb)) of
       Inl err \<Rightarrow> Some (Inl (Errorf ''unable to find blockhash for height'' err))
     | Inr hashAtBestHeight \<Rightarrow>
        (case Hash bb of
           None \<Rightarrow> Some (Inr (Height bb + 1))
         | Some bestHash \<Rightarrow>
            (if hashAtBestHeight \<noteq> bestHash then
               (case getCommonBlockAncestorHeight c bestHash hashAtBestHeight of
                  None \<Rightarrow> None
                | Some (Inl err) \<Rightarrow> Some (Inl (Errorf ''unable to find common ancestor'' err))
                | Some (Inr commonAncestorHeight) \<Rightarrow> Some (Inr (commonAncestorHeight + 1)))
             else Some (Inr (Height bb + 1)))))"

text \<open>
  The loop \<open>for height := startingHeight; height < newHeight; height++\<close> of
  \<open>catchUpOnMissedBlocks\<close>. It returns the error, if any, and the notifier as the
  blocks connected before the error left it.
\<close>

function missedBlocksLoop ::
  "epochSched \<Rightarrow> 't TxConfNotifierOps \<Rightarrow> chainConn \<Rightarrow> int32 \<Rightarrow> int32 \<Rightarrow> 't BitcoindNotifier
     \<Rightarrow> error option \<times> 't BitcoindNotifier" where
  "missedBlocksLoop sched ops c newHeight height b =
    (if height <s newHeight then
       (case GetBlockHash c (scast height) of
          Inl err \<Rightarrow> (Some (Errorf ''unable to get block hash'' err), b)
        | Inr hash \<Rightarrow>
           (case handleBlockConnected sched ops c height hash b of
              Inl err \<Rightarrow> (Some (Errorf ''error on handling connected block'' err), b)
            | Inr b' \<Rightarrow> missedBlocksLoop sched ops c newHeight (height + 1) b'))
     else (None, b))"
  by pat_completeness auto
termination
proof (relation
    "measure (\<lambda>(sched, ops, c, newHeight, height, b). nat (sint newHeight - sint height))")
  show "wf (measure
          (\<lambda>(sched, ops, c, newHeight, height, b). nat (sint newHeight - sint height)))"
    by simp
next
  fix sched :: epochSched and ops :: "'t TxConfNotifierOps" and c :: chainConn and newHeight height :: int32
    and b b' :: "'t BitcoindNotifier" and x2 :: hash
  assume lt: "height <s newHeight"
  have "sint newHeight < 2 ^ 31"
    using sint_lt [of newHeight] by simp
  with lt have up: "sint height + 1 < 2 ^ 31"
    by (simp add: word_sless_alt)
  have lo: "- (2 ^ 31) \<le> sint height"
    using sint_ge [of height] by simp
  have "sint (height + 1) = signed_take_bit 31 (sint height + 1)"
    by (simp add: sint_word_ariths)
  also have "\<dots> = sint height + 1"
    using up lo by (simp add: signed_take_bit_int_eq_self)
  finally have "sint (height + 1) = sint height + 1" .
  with lt show "((sched, ops, c, newHeight, height + 1, b'), (sched, ops, c, newHeight, height, b))
      \<in> measure
          (\<lambda>(sched, ops, c, newHeight, height, b). nat (sint newHeight - sint height))"
    by (simp add: word_sless_alt)
qed

declare missedBlocksLoop.simps [simp del]

definition catchUpOnMissedBlocks ::
  "epochSched \<Rightarrow> 't TxConfNotifierOps \<Rightarrow> chainConn \<Rightarrow> int32 \<Rightarrow> 't BitcoindNotifier
     \<Rightarrow> (error option \<times> 't BitcoindNotifier) option" where
  "catchUpOnMissedBlocks sched ops c newHeight b =
    (case catchUpStartingHeight c (bestBlock b) of
       None \<Rightarrow> None
     | Some (Inl err) \<Rightarrow> Some (Some err, b)
     | Some (Inr startingHeight) \<Rightarrow>
        Some (missedBlocksLoop sched ops c newHeight startingHeight b))"

text \<open>
  The loop \<open>for height := startingHeight; height <= b.bestBlock.Height; height++\<close>
  of \<open>catchUpClientOnBlocks\<close>. With \<open><=\<close> on \<open>int32\<close> the loop does not end when
  the bound is the largest \<open>int32\<close> and every hash lookup succeeds, so it is partial.
\<close>

partial_function (option) clientCatchUpLoop ::
  "epochSched \<Rightarrow> chainConn \<Rightarrow> bool \<Rightarrow> int32 \<Rightarrow> int32 \<Rightarrow> (uint64 \<times> blockEpochRegistration) list
     \<Rightarrow> (error option \<times> (uint64 \<times> blockEpochRegistration) list) option"
where
  "clientCatchUpLoop sched c quitClosed bestHeight height clients =
    (if height \<le>s bestHeight then
       (case GetBlockHash c (scast height) of
          Inl err \<Rightarrow> Some (Some (Errorf ''unable to find blockhash for height'' err), clients)
        | Inr hash \<Rightarrow>
            clientCatchUpLoop sched c quitClosed bestHeight (height + 1)
              (notifyBlockEpochs sched quitClosed height hash clients))
     else Some (None, clients))"

definition catchUpClientOnBlocks ::
  "epochSched \<Rightarrow> chainConn \<Rightarrow> BlockEpoch option \<Rightarrow> 't BitcoindNotifier
     \<Rightarrow> (error option \<times> 't BitcoindNotifier) option" where
  "catchUpClientOnBlocks sched c clientBestBlock b =
    (case clientBestBlock of
       None \<Rightarrow> Some (None, b)
     | Some bb \<Rightarrow>
        (case catchUpStartingHeight c bb of
           None \<Rightarrow> None
         | Some (Inl err) \<Rightarrow> Some (Some err, b)
         | Some (Inr startingHeight) \<Rightarrow>
            (case clientCatchUpLoop sched c (quit b) (Height (bestBlock b)) startingHeight
                    (blockEpochClients b) of
               None \<Rightarrow> None
             | Some (err, clients) \<Rightarrow> Some (err, b\<lparr>blockEpochClients := clients\<rparr>))))"

section \<open>Spend notifications\<close>

text \<open>
  The inner loop of \<open>handleRelevantTx\<close>: each client of the outpoint is sent the
  details and its channel is closed.
\<close>

fun notifySpendClients ::
  "SpendDetail \<Rightarrow> (uint64 \<times> spendNotification) list \<Rightarrow> chan list \<Rightarrow> fault + chan list" where
  "notifySpendClients spendDetails [] cs = Inr cs"
| "notifySpendClients spendDetails ((sid, ntfn) # clients) cs =
    (case chanSend cs (spendChan ntfn) spendDetails of
       Inl f \<Rightarrow> Inl f
     | Inr cs1 \<Rightarrow>
        (case chanClose cs1 (spendChan ntfn) of
           Inl f \<Rightarrow> Inl f
         | Inr cs2 \<Rightarrow> notifySpendClients spendDetails clients cs2))"

definition spendDetailsFor :: "RelevantTx \<Rightarrow> int32 \<Rightarrow> nat \<Rightarrow> OutPoint \<Rightarrow> SpendDetail" where
  "spendDetailsFor tx bestHeight i prevOut =
    \<lparr>SpentOutPoint = prevOut,
     SpenderTxHash = TxHash (trMsgTx (rtTxRecord tx)),
     SpendingTx = trMsgTx (rtTxRecord tx),
     SpenderInputIndex = of_nat i,
     SpendingHeight = (case Block tx of Some blk \<Rightarrow> bmHeight blk | None \<Rightarrow> bestHeight + 1)\<rparr>"

text \<open>
  The outer loop \<open>for i, txIn := range msgTx.TxIn\<close>, from index \<open>i\<close> on, over
  the spend registry and the channel store.
\<close>

fun relevantTxLoop ::
  "RelevantTx \<Rightarrow> int32 \<Rightarrow> nat \<Rightarrow> OutPoint list
     \<Rightarrow> (OutPoint \<times> (uint64 \<times> spendNotification) list) list \<Rightarrow> chan list
     \<Rightarrow> fault + ((OutPoint \<times> (uint64 \<times> spendNotification) list) list \<times> chan list)" where
  "relevantTxLoop tx bestHeight i [] sn cs = Inr (sn, cs)"
| "relevantTxLoop tx bestHeight i (prevOut # ins) sn cs =
    (case map_of sn prevOut of
       Some clients \<Rightarrow>
        (case notifySpendClients (spendDetailsFor tx bestHeight i prevOut) clients cs of
           Inl f \<Rightarrow> Inl f
         | Inr cs' \<Rightarrow> relevantTxLoop tx bestHeight (Suc i) ins (AList.delete prevOut sn) cs')
     | None \<Rightarrow> relevantTxLoop tx bestHeight (Suc i) ins sn cs)"

definition handleRelevantTx ::
  "RelevantTx \<Rightarrow> int32 \<Rightarrow> 't BitcoindNotifier \<Rightarrow> fault + 't BitcoindNotifier" where
  "handleRelevantTx tx bestHeight b =
    (case relevantTxLoop tx bestHeight 0 (TxIn (trMsgTx (rtTxRecord tx)))
            (spendNotifications b) (chans b) of
       Inl f \<Rightarrow> Inl f
     | Inr (sn, cs) \<Rightarrow> Inr (b\<lparr>spendNotifications := sn, chans := cs\<rparr>))"

section \<open>Historical confirmation details\<close>

text \<open>
  The test \<open>!ok || jsonErr.Code != btcjson.ErrRPCNoTxInfo\<close> on a non-nil error:
  the error that makes the caller give up, if any.
\<close>

definition fatalTxQueryError :: "error option \<Rightarrow> error option" where
  "fatalTxQueryError err =
    (case err of
       None \<Rightarrow> None
     | Some (RPCError code) \<Rightarrow> if code \<noteq> ErrRPCNoTxInfo then Some (RPCError code) else None
     | Some e \<Rightarrow> Some e)"

text \<open>\<open>for txIndex, txHash := range block.Tx\<close>: the first index holding the target.\<close>

fun findTxIndex :: "string \<Rightarrow> string list \<Rightarrow> nat \<Rightarrow> nat option" where
  "findTxIndex target [] txIndex = None"
| "findTxIndex target (txHash # rest) txIndex =
    (if txHash = target then Some txIndex else findTxIndex target rest (Suc txIndex))"

definition confDetailsFromTxIndex :: "chainConn \<Rightarrow> hash \<Rightarrow> error + TxConfirmation option" where
  "confDetailsFromTxIndex c txid =
    (case GetRawTransactionVerbose c txid of
       (tx, err) \<Rightarrow>
        (case fatalTxQueryError err of
           Some e \<Rightarrow> Inl (Errorf ''unable to query for txid'' e)
         | None \<Rightarrow>
            (case tx of
               None \<Rightarrow> Inr None
             | Some t \<Rightarrow>
                (if trrBlockHash t = [] then Inr None
                 else
                   (case NewHashFromStr c (trrBlockHash t) of
                      Inl e \<Rightarrow> Inl (Errorf ''unable to get block hash for historical dispatch'' e)
                    | Inr blockHash \<Rightarrow>
                       (case GetBlockVerbose c blockHash of
                          Inl e \<Rightarrow> Inl (Errorf ''unable to get block for historical dispatch'' e)
                        | Inr block \<Rightarrow>
                           (case findTxIndex (HashString c txid) (bvTx block) 0 of
                              Some txIndex \<Rightarrow>
                                Inr (Some \<lparr>tcBlockHash = blockHash,
                                           BlockHeight = ucast (bvHeight block),
                                           TxIndex = of_nat txIndex\<rparr>)
                            | None \<Rightarrow> Inl (ErrorsNew ''unable to locate tx in block''))))))))"

text \<open>
  \<open>confDetailsManually\<close>: the loop \<open>for height := heightHint; height <= currentHeight;
  height++\<close> on \<open>uint32\<close>, partial for the same reason as the loop above.
\<close>

partial_function (option) confDetailsManually ::
  "chainConn \<Rightarrow> hash \<Rightarrow> uint32 \<Rightarrow> uint32 \<Rightarrow> (error + TxConfirmation option) option"
where
  "confDetailsManually c txid height currentHeight =
    (if height \<le> currentHeight then
       (case GetBlockHash c (ucast height) of
          Inl err \<Rightarrow> Some (Inl (ErrorsNew ''unable to get hash from block with height''))
        | Inr blockHash \<Rightarrow>
           (case GetBlockVerbose c blockHash of
              Inl err \<Rightarrow> Some (Inl (Errorf ''unable to get block with hash'' err))
            | Inr block \<Rightarrow>
               (case findTxIndex (HashString c txid) (bvTx block) 0 of
                  Some txIndex \<Rightarrow>
                    Some (Inr (Some \<lparr>tcBlockHash = blockHash, BlockHeight = height,
                                     TxIndex = of_nat txIndex\<rparr>))
                | None \<Rightarrow> confDetailsManually c txid (height + 1) currentHeight)))
     else Some (Inr None))"

definition historicalConfDetails ::
  "chainConn \<Rightarrow> hash \<Rightarrow> uint32 \<Rightarrow> uint32 \<Rightarrow> (error + TxConfirmation option) option" where
  "historicalConfDetails c txid hint currentHeight =
    (case confDetailsFromTxIndex c txid of
       Inl err \<Rightarrow> Some (Inl err)
     | Inr (Some txConf) \<Rightarrow> Some (Inr (Some txConf))
     | Inr None \<Rightarrow> confDetailsManually c txid hint currentHeight)"

section \<open>The dispatcher\<close>

definition logError :: "error \<Rightarrow> 't BitcoindNotifier \<Rightarrow> 't BitcoindNotifier" where
  "logError err b = b\<lparr>errorLog := errorLog b @ [err]\<rparr>"

text \<open>
  The two cancel cases. \<open>outPointClients[msg.spendID]\<close> and
  \<open>b.blockEpochClients[msg.epochID]\<close> give a nil pointer for a missing key, and the
  field access that follows dereferences it.
\<close>

definition handleCancelMsg ::
  "cancelMsg \<Rightarrow> 't BitcoindNotifier \<Rightarrow> fault + 't BitcoindNotifier" where
  "handleCancelMsg cancel b =
    (case cancel of
       SpendCancel op sid \<Rightarrow>
        (case map_of (spendNotifications b) op of
           None \<Rightarrow> Inr b
         | Some outPointClients \<Rightarrow>
            (case map_of outPointClients sid of
               None \<Rightarrow> Inl (Panic ''nil pointer dereference'')
             | Some ntfn \<Rightarrow>
                (case chanClose (chans b) (spendChan ntfn) of
                   Inl f \<Rightarrow> Inl f
                 | Inr cs \<Rightarrow>
                    Inr (b\<lparr>chans := cs,
                           spendNotifications :=
                             AList.update op (AList.delete sid outPointClients)
                               (spendNotifications b)\<rparr>))))
     | EpochCancel eid \<Rightarrow>
        (case map_of (blockEpochClients b) eid of
           None \<Rightarrow> Inl (Panic ''nil pointer dereference'')
         | Some reg \<Rightarrow>
            (if cancelChanClosed reg \<or> epochChanClosed reg
             then Inl (Panic ''close of closed channel'')
             else Inr (b\<lparr>blockEpochClients := AList.delete eid (blockEpochClients b)\<rparr>))))"

text \<open>
  The cases of \<open>registerMsg := <-b.notificationRegistry\<close>. A registration for an
  outpoint makes the outpoint's inner map when it is missing. A confirmation
  registration only logs its errors: when \<open>GetBestBlock\<close> fails,
  \<open>currentHeight\<close> is the zero value it was returned with, and a failed historical
  lookup registers with no confirmation details.
\<close>

definition registerSpend ::
  "chainConn \<Rightarrow> spendNotification \<Rightarrow> 't BitcoindNotifier \<Rightarrow> 't BitcoindNotifier" where
  "registerSpend c msg b =
    (let op = targetOutpoint msg;
         clients = (case map_of (spendNotifications b) op of None \<Rightarrow> [] | Some cl \<Rightarrow> cl)
     in b\<lparr>spendNotifications :=
            AList.update op (AList.update (spendID msg) msg clients) (spendNotifications b)\<rparr>)"

definition registerConf ::
  "'t TxConfNotifierOps \<Rightarrow> chainConn \<Rightarrow> confirmationNotification \<Rightarrow> 't BitcoindNotifier
     \<Rightarrow> 't BitcoindNotifier option" where
  "registerConf ops c msg b =
    (let (currentHeight, b1) =
           (case GetBestBlock c of
              Inl err \<Rightarrow> (0, logError err b)
            | Inr (h, height) \<Rightarrow> (height, b))
     in (case historicalConfDetails c (TxID (cnConfNtfn msg)) (cnHeightHint msg) currentHeight of
           None \<Rightarrow> None
         | Some res \<Rightarrow>
            (let (txConf, b2) =
                   (case res of Inl err \<Rightarrow> (None, logError err b1) | Inr tc \<Rightarrow> (tc, b1))
             in (case Register ops (txConfNotifier b2) (cnConfNtfn msg) txConf of
                   Inl err \<Rightarrow> Some (logError err b2)
                 | Inr tcn \<Rightarrow> Some (b2\<lparr>txConfNotifier := tcn\<rparr>)))))"

definition registerEpoch ::
  "epochSched \<Rightarrow> chainConn \<Rightarrow> blockEpochRegistration \<Rightarrow> 't BitcoindNotifier \<Rightarrow> 't BitcoindNotifier option" where
  "registerEpoch sched c msg b =
    (case catchUpClientOnBlocks sched c (regBestBlock msg)
            (b\<lparr>blockEpochClients := AList.update (epochID msg) msg (blockEpochClients b)\<rparr>) of
       None \<Rightarrow> None
     | Some (None, b') \<Rightarrow> Some b'
     | Some (Some err, b') \<Rightarrow> Some (logError err b'))"

definition handleRegisterMsg ::
  "epochSched \<Rightarrow> 't TxConfNotifierOps \<Rightarrow> chainConn \<Rightarrow> registerMsg \<Rightarrow> 't BitcoindNotifier
     \<Rightarrow> (fault + 't BitcoindNotifier) option" where
  "handleRegisterMsg sched ops c registerMsg b =
    (case registerMsg of
       RegSpend msg \<Rightarrow> Some (Inr (registerSpend c msg b))
     | RegConf msg \<Rightarrow> map_option Inr (registerConf ops c msg b)
     | RegEpoch msg \<Rightarrow> map_option Inr (registerEpoch sched c msg b)
     | RegRelevantTx msg \<Rightarrow> Some (handleRelevantTx msg (Height (bestBlock b)) b))"

text \<open>
  The \<open>chain.BlockConnected\<close> case after the catch-up: the tip is stored first,
  then the block is connected, and an error of the connection is logged.
\<close>

definition connectNewTip ::
  "epochSched \<Rightarrow> 't TxConfNotifierOps \<Rightarrow> chainConn \<Rightarrow> int32 \<Rightarrow> hash \<Rightarrow> 't BitcoindNotifier
     \<Rightarrow> 't BitcoindNotifier" where
  "connectNewTip sched ops c height hash b =
    (let b1 = b\<lparr>bestBlock := \<lparr>Height = height, Hash = Some hash\<rparr>\<rparr>
     in (case handleBlockConnected sched ops c height hash b1 of
           Inl err \<Rightarrow> logError err b1
         | Inr b2 \<Rightarrow> b2))"

definition blockConnected ::
  "epochSched \<Rightarrow> 't TxConfNotifierOps \<Rightarrow> chainConn \<Rightarrow> int32 \<Rightarrow> hash \<Rightarrow> 't BitcoindNotifier
     \<Rightarrow> 't BitcoindNotifier option" where
  "blockConnected sched ops c height hash b =
    (if height \<noteq> Height (bestBlock b) + 1 then
       (case catchUpOnMissedBlocks sched ops c height b of
          None \<Rightarrow> None
        | Some (Some err, b') \<Rightarrow> Some (logError err b')
        | Some (None, b') \<Rightarrow> Some (connectNewTip sched ops c height hash b'))
     else Some (connectNewTip sched ops c height hash b))"

text \<open>
  The \<open>chain.BlockDisconnected\<close> case. When the hash lookup fails the code only
  warns and goes on with a nil hash.
\<close>

definition blockDisconnected ::
  "'t TxConfNotifierOps \<Rightarrow> chainConn \<Rightarrow> int32 \<Rightarrow> hash \<Rightarrow> 't BitcoindNotifier
     \<Rightarrow> 't BitcoindNotifier" where
  "blockDisconnected ops c height hash b =
    (if height \<noteq> Height (bestBlock b) then b
     else
       (let blockHash = (case GetBlockHash c (scast (height - 1)) of
                           Inl err \<Rightarrow> None
                         | Inr h \<Rightarrow> Some h);
            b1 = b\<lparr>bestBlock := \<lparr>Height = height - 1, Hash = blockHash\<rparr>\<rparr>
        in (case DisconnectTip ops (txConfNotifier b1) height of
              Inl err \<Rightarrow> logError err b1
            | Inr tcn \<Rightarrow> b1\<lparr>txConfNotifier := tcn\<rparr>)))"

definition handleChainNtfn ::
  "epochSched \<Rightarrow> 't TxConfNotifierOps \<Rightarrow> chainConn \<Rightarrow> chainNtfn \<Rightarrow> 't BitcoindNotifier
     \<Rightarrow> (fault + 't BitcoindNotifier) option" where
  "handleChainNtfn sched ops c ntfn b =
    (case ntfn of
       BlockConnected height hash \<Rightarrow>
         map_option Inr (blockConnected sched ops c height hash b)
     | BlockDisconnected height hash \<Rightarrow> Some (Inr (blockDisconnected ops c height hash b))
     | ChainRelevantTx tx \<Rightarrow> Some (handleRelevantTx tx (Height (bestBlock b)) b))"

text \<open>
  One iteration of the \<open>select\<close> loop of \<open>notificationDispatcher\<close> on the message
  it received. \<open>None\<close>: the iteration does not end; \<open>Inl\<close>: the goroutine faults.
\<close>

definition notificationDispatcher ::
  "epochSched \<Rightarrow> 't TxConfNotifierOps \<Rightarrow> chainConn \<Rightarrow> event \<Rightarrow> 't BitcoindNotifier
     \<Rightarrow> (fault + 't BitcoindNotifier) option" where
  "notificationDispatcher sched ops c ev b =
    (case ev of
       CancelMsg cancel \<Rightarrow> Some (handleCancelMsg cancel b)
     | RegisterMsg registerMsg \<Rightarrow> handleRegisterMsg sched ops c registerMsg b
     | ChainNtfn ntfn \<Rightarrow> handleChainNtfn sched ops c ntfn b)"

section \<open>Start, stop and the debug accessors\<close>

text \<open>
  \<open>New\<close> when the backend client is created without error. The argument stands
  for the \<open>txConfNotifier\<close> that is not set before \<open>Start\<close>.
\<close>

definition New :: "'t \<Rightarrow> 't BitcoindNotifier" where
  "New unset =
    \<lparr>spendClientCounter = 0, epochClientCounter = 0, started = 0, stopped = 0,
     spendNotifications = [], txConfNotifier = unset, blockEpochClients = [],
     bestBlock = \<lparr>Height = 0, Hash = None\<rparr>, quit = False, dispatcherRunning = False,
     chans = [], errorLog = []\<rparr>"

definition Start ::
  "'t TxConfNotifierOps \<Rightarrow> chainConn \<Rightarrow> 't BitcoindNotifier
     \<Rightarrow> error option \<times> 't BitcoindNotifier" where
  "Start ops c b =
    (let b0 = b\<lparr>started := started b + 1\<rparr>
     in if started b0 \<noteq> 1 then (None, b0)
        else
          (case ConnStart c of
             Some err \<Rightarrow> (Some err, b0)
           | None \<Rightarrow>
              (case NotifyBlocks c of
                 Some err \<Rightarrow> (Some err, b0)
               | None \<Rightarrow>
                  (case GetBestBlock c of
                     Inl err \<Rightarrow> (Some err, b0)
                   | Inr (currentHash, currentHeight) \<Rightarrow>
                      (None, b0\<lparr>txConfNotifier :=
                                    NewTxConfNotifier ops currentHeight reorgSafetyLimit,
                                 bestBlock := \<lparr>Height = currentHeight, Hash = Some currentHash\<rparr>,
                                 dispatcherRunning := True\<rparr>)))))"

definition UnsafeStart ::
  "'t TxConfNotifierOps \<Rightarrow> chainConn \<Rightarrow> BlockEpoch \<Rightarrow> 't BitcoindNotifier
     \<Rightarrow> error option \<times> 't BitcoindNotifier" where
  "UnsafeStart ops c best b =
    (case ConnStart c of
       Some err \<Rightarrow> (Some err, b)
     | None \<Rightarrow>
        (case NotifyBlocks c of
           Some err \<Rightarrow> (Some err, b)
         | None \<Rightarrow>
            (None, b\<lparr>txConfNotifier := NewTxConfNotifier ops (Height best) reorgSafetyLimit,
                     bestBlock := best,
                     dispatcherRunning := True\<rparr>)))"

definition GetBestHeight :: "'t BitcoindNotifier \<Rightarrow> uint32" where
  "GetBestHeight b = 0"

text \<open>
  The btcd and neutrino notifiers, as far as their debug files show them: the
  fields that \<open>UnsafeStart\<close> and \<open>GetBestHeight\<close> touch.
\<close>

record 't BtcdNotifier =
  btcdTxConfNotifier :: 't
  btcdBestBlock :: BlockEpoch
  btcdDispatcherRunning :: bool

definition BtcdNotifier_UnsafeStart ::
  "'t TxConfNotifierOps \<Rightarrow> chainConn \<Rightarrow> BlockEpoch \<Rightarrow> 't BtcdNotifier
     \<Rightarrow> error option \<times> 't BtcdNotifier" where
  "BtcdNotifier_UnsafeStart ops c best b =
    (case ConnStart c of
       Some err \<Rightarrow> (Some err, b)
     | None \<Rightarrow>
        (case NotifyBlocks c of
           Some err \<Rightarrow> (Some err, b)
         | None \<Rightarrow>
            (None, b\<lparr>btcdTxConfNotifier := NewTxConfNotifier ops (Height best) reorgSafetyLimit,
                     btcdBestBlock := best,
                     btcdDispatcherRunning := True\<rparr>)))"

definition BtcdNotifier_GetBestHeight :: "'t BtcdNotifier \<Rightarrow> uint32" where
  "BtcdNotifier_GetBestHeight b = 0"

record 't NeutrinoNotifier =
  bestHeight :: uint32
  neutrinoTxConfNotifier :: 't
  rescanErr :: "error option"
  neutrinoDispatcherRunning :: bool

text \<open>
  The second argument is what \<open>n.chainView.Start()\<close> returns. The function begins
  with \<open>*block.Hash\<close>, which dereferences a nil pointer when the block has no hash.
\<close>

definition NeutrinoNotifier_UnsafeStart ::
  "'t TxConfNotifierOps \<Rightarrow> error option \<Rightarrow> BlockEpoch \<Rightarrow> 't NeutrinoNotifier
     \<Rightarrow> fault + error option \<times> 't NeutrinoNotifier" where
  "NeutrinoNotifier_UnsafeStart ops chainViewStart block n =
    (case Hash block of
       None \<Rightarrow> Inl (Panic ''nil pointer dereference'')
     | Some startingHash \<Rightarrow>
        Inr (None, n\<lparr>bestHeight := Height block,
                      neutrinoTxConfNotifier :=
                        NewTxConfNotifier ops (Height block) reorgSafetyLimit,
                      rescanErr := chainViewStart,
                      neutrinoDispatcherRunning := True\<rparr>))"

definition NeutrinoNotifier_GetBestHeight :: "'t NeutrinoNotifier \<Rightarrow> uint32" where
  "NeutrinoNotifier_GetBestHeight n = bestHeight n"

subsection \<open>Stop\<close>

fun closeSpendClients ::
  "(uint64 \<times> spendNotification) list \<Rightarrow> chan list \<Rightarrow> fault + chan list" where
  "closeSpendClients [] cs = Inr cs"
| "closeSpendClients ((sid, spendClient) # rest) cs =
    (case chanClose cs (spendChan spendClient) of
       Inl f \<Rightarrow> Inl f
     | Inr cs' \<Rightarrow> closeSpendClients rest cs')"

fun closeAllSpendClients ::
  "(OutPoint \<times> (uint64 \<times> spendNotification) list) list \<Rightarrow> chan list \<Rightarrow> fault + chan list" where
  "closeAllSpendClients [] cs = Inr cs"
| "closeAllSpendClients ((op, spendClients) # rest) cs =
    (case closeSpendClients spendClients cs of
       Inl f \<Rightarrow> Inl f
     | Inr cs' \<Rightarrow> closeAllSpendClients rest cs')"

fun closeEpochClients ::
  "(uint64 \<times> blockEpochRegistration) list
     \<Rightarrow> fault + (uint64 \<times> blockEpochRegistration) list" where
  "closeEpochClients [] = Inr []"
| "closeEpochClients ((eid, epochClient) # rest) =
    (if cancelChanClosed epochClient \<or> epochChanClosed epochClient
     then Inl (Panic ''close of closed channel'')
     else (case closeEpochClients rest of
             Inl f \<Rightarrow> Inl f
           | Inr rest' \<Rightarrow>
              Inr ((eid, epochClient\<lparr>cancelChanClosed := True, epochChanClosed := True\<rparr>)
                   # rest')))"

text \<open>
  \<open>Stop\<close> as one step: \<open>quit\<close> is closed, the dispatcher leaves its loop
  (\<open>b.wg.Wait()\<close> returns), then the channels of the pending clients are closed
  and the confirmation notifier is torn down. \<open>b.txConfNotifier\<close> is nil until
  \<open>Start\<close> or \<open>UnsafeStart\<close> assigns it, which they do together with launching
  the dispatcher; so the first \<open>Stop\<close> of a notifier whose dispatcher was never
  launched calls \<open>TearDown\<close> on the nil pointer.
\<close>

definition Stop ::
  "'t TxConfNotifierOps \<Rightarrow> 't BitcoindNotifier \<Rightarrow> fault + 't BitcoindNotifier" where
  "Stop ops b =
    (let b0 = b\<lparr>stopped := stopped b + 1\<rparr>
     in if stopped b0 \<noteq> 1 then Inr b0
        else if quit b0 then Inl (Panic ''close of closed channel'')
        else
          (let b1 = b0\<lparr>quit := True, dispatcherRunning := False\<rparr>
           in (case closeAllSpendClients (spendNotifications b1) (chans b1) of
                 Inl f \<Rightarrow> Inl f
               | Inr cs \<Rightarrow>
                  (case closeEpochClients (blockEpochClients b1) of
                     Inl f \<Rightarrow> Inl f
                   | Inr clients \<Rightarrow>
                      (if dispatcherRunning b then
                         Inr (b1\<lparr>chans := cs, blockEpochClients := clients,
                                 txConfNotifier := TearDown ops (txConfNotifier b1)\<rparr>)
                       else Inl (Panic ''nil pointer dereference''))))))"

section \<open>Registration entry points\<close>

text \<open>
  \<open>select { case <-b.quit: ...; case b.notificationRegistry <- msg: ... }\<close>.
  The send can proceed when the dispatcher is there to receive. When both cases can
  proceed Go chooses one of them; the choice is a parameter. When neither can, the
  caller blocks: \<open>None\<close>.
\<close>

datatype selected = SelQuit | SelSend

definition selectQuitOrSend :: "bool \<Rightarrow> bool \<Rightarrow> selected \<Rightarrow> selected option" where
  "selectQuitOrSend quitClosed receiverReady choice =
    (if quitClosed \<and> receiverReady then Some choice
     else if quitClosed then Some SelQuit
     else if receiverReady then Some SelSend
     else None)"


record BlockEpochEvent =
  Epochs :: uint64
  beCancel :: cancelMsg

text \<open>
  The head of \<open>RegisterSpendNtfn\<close>: a new channel and the next id. The struct
  literal does not set \<open>heightHint\<close>.
\<close>

definition newSpendNotification ::
  "OutPoint \<Rightarrow> 't BitcoindNotifier \<Rightarrow> spendNotification \<times> 't BitcoindNotifier" where
  "newSpendNotification outpoint b =
    (\<lparr>targetOutpoint = outpoint, spendChan = length (chans b),
      spendID = spendClientCounter b + 1, heightHint = 0\<rparr>,
     b\<lparr>spendClientCounter := spendClientCounter b + 1, chans := chans b @ [makeChan]\<rparr>)"






definition RegisterBlockEpochNtfn ::
  "BlockEpoch option \<Rightarrow> selected \<Rightarrow> 't BitcoindNotifier
     \<Rightarrow> (((error + BlockEpochEvent) \<times> registerMsg list) \<times> 't BitcoindNotifier) option" where
  "RegisterBlockEpochNtfn clientBestBlock choice b =
    (let reg = \<lparr>epochID = epochClientCounter b + 1, epochQueue = [], queueStopped = False,
                regBestBlock = clientBestBlock, cancelChanClosed = False,
                epochChanClosed = False\<rparr>;
         b1 = b\<lparr>epochClientCounter := epochClientCounter b + 1\<rparr>
     in (case selectQuitOrSend (quit b) (dispatcherRunning b) choice of
           None \<Rightarrow> None
         | Some SelQuit \<Rightarrow>
             Some ((Inl (ErrorsNew (''chainntnfs: system interrupt while ''
                      @ ''attempting to register for block epoch notification.'')), []), b1)
         | Some SelSend \<Rightarrow>
             Some ((Inr \<lparr>Epochs = epochID reg, beCancel = EpochCancel (epochID reg)\<rparr>,
                    [RegEpoch reg]), b1)))"

section \<open>Concrete notifiers\<close>

text \<open>
  A bitcoind notifier and a btcd notifier started through \<open>UnsafeStart\<close> at the
  best block of height 100, over the height-only confirmation notifier.
\<close>

definition block100 :: BlockEpoch where
  "block100 = \<lparr>Height = 100, Hash = Some 3100\<rparr>"

definition bitcoindAt100 :: "uint32 BitcoindNotifier" where
  "bitcoindAt100 = snd (UnsafeStart heightOnlyTxConfNotifier noBackend block100 (New 0))"

definition btcdAt100 :: "uint32 BtcdNotifier" where
  "btcdAt100 =
    snd (BtcdNotifier_UnsafeStart heightOnlyTxConfNotifier noBackend block100
          \<lparr>btcdTxConfNotifier = 0, btcdBestBlock = \<lparr>Height = 0, Hash = None\<rparr>,
           btcdDispatcherRunning = False\<rparr>)"

text \<open>
  A notifier with one spend client, registered for \<open>exampleOutPoint\<close> the way
  \<open>RegisterSpendNtfn\<close> and the dispatcher do it, and the same notifier after the
  client has cancelled once.
\<close>

definition exampleOutPoint :: OutPoint where
  "exampleOutPoint = \<lparr>opHash = 9, opIndex = 0\<rparr>"

definition oneSpendClient :: "uint32 BitcoindNotifier" where
  "oneSpendClient =
    (case newSpendNotification exampleOutPoint bitcoindAt100 of
       (ntfn, b) \<Rightarrow> registerSpend noBackend ntfn b)"

definition oneSpendClientCancelled :: "uint32 BitcoindNotifier" where
  "oneSpendClientCancelled =
    oneSpendClient\<lparr>chans := [makeChan\<lparr>closed := True\<rparr>],
                   spendNotifications := [(exampleOutPoint, [])]\<rparr>"


text \<open>A transaction seen in the mempool only that spends \<open>exampleOutPoint\<close>.\<close>

definition mempoolSpend :: RelevantTx where
  "mempoolSpend =
    \<lparr>rtTxRecord = \<lparr>trMsgTx = \<lparr>TxIn = [exampleOutPoint], TxHash = 77\<rparr>, trHash = 77,
                    Received = 0\<rparr>,
     Block = None\<rparr>"

section \<open>The life of a spend channel\<close>

text \<open>
  \<open>delivered\<close>: every value ever sent on the channel, oldest first (those the
  subscriber has taken, then those still buffered). A channel is \<open>pristine\<close> when
  nothing has been sent on it and it is open.
\<close>

definition delivered :: "chan \<Rightarrow> SpendDetail list" where
  "delivered ch = recvd ch @ buf ch"

definition pristine :: "chan \<Rightarrow> bool" where
  "pristine ch = (buf ch = [] \<and> \<not> closed ch \<and> recvd ch = [])"

definition atMostOnce :: "chan \<Rightarrow> bool" where
  "atMostOnce ch = (length (delivered ch) \<le> 1 \<and> (delivered ch \<noteq> [] \<longrightarrow> closed ch))"

definition chanSet :: "(uint64 \<times> spendNotification) list \<Rightarrow> nat set" where
  "chanSet clients = (\<lambda>e. spendChan (snd e)) ` set clients"

definition registeredChan ::
  "(OutPoint \<times> (uint64 \<times> spendNotification) list) list \<Rightarrow> nat \<Rightarrow> bool" where
  "registeredChan sn a = (\<exists>op clients. map_of sn op = Some clients \<and> a \<in> chanSet clients)"

text \<open>
  The registry while the dispatcher runs: the clients of an outpoint have different
  channels, each allocated and pristine, and different outpoints share no channel.
\<close>

definition pendingOK ::
  "(OutPoint \<times> (uint64 \<times> spendNotification) list) list \<Rightarrow> chan list \<Rightarrow> bool" where
  "pendingOK sn cs =
    ((\<forall>op clients. map_of sn op = Some clients \<longrightarrow>
        distinct (map (\<lambda>e. spendChan (snd e)) clients) \<and>
        (\<forall>a \<in> chanSet clients. a < length cs \<and> pristine (cs ! a))) \<and>
     (\<forall>op op' clients clients'.
        map_of sn op = Some clients \<longrightarrow> map_of sn op' = Some clients' \<longrightarrow> op \<noteq> op' \<longrightarrow>
        chanSet clients \<inter> chanSet clients' = {}))"

text \<open>The registry and the channel store as the dispatcher leaves them after a message.\<close>

definition spendOK ::
  "(OutPoint \<times> (uint64 \<times> spendNotification) list) list \<Rightarrow> chan list \<Rightarrow> bool" where
  "spendOK sn cs =
    (pendingOK sn cs \<and>
     (\<forall>a < length cs. atMostOnce (cs ! a) \<and>
        (delivered (cs ! a) \<noteq> [] \<longrightarrow> \<not> registeredChan sn a)))"

definition spendInv :: "'t BitcoindNotifier \<Rightarrow> bool" where
  "spendInv b =
    ((\<forall>a < length (chans b).
        atMostOnce (chans b ! a) \<and>
        (delivered (chans b ! a) \<noteq> [] \<longrightarrow> \<not> registeredChan (spendNotifications b) a)) \<and>
     (\<not> quit b \<longrightarrow> pendingOK (spendNotifications b) (chans b)))"

text \<open>
  The runs of a notifier. It is created, started (\<open>Start\<close> or \<open>UnsafeStart\<close>) and
  stopped. A call of \<open>RegisterSpendNtfn\<close> allocates a channel and takes the next
  id (\<open>spendAllocated\<close>); its registration may reach the dispatcher later, or
  never. While the dispatcher runs it handles any cancellation, any chain
  notification and any registration message, where a spend registration is one that
  such a call has built and not yet delivered: its channel is allocated, untouched
  and in no registry entry (outpoint and id are left arbitrary). A call of
  \<open>RegisterBlockEpochNtfn\<close> advances the epoch counter; a subscriber may receive
  from its channel at any time. The backend may answer differently at each step.
  \<open>Stop\<close> is one step, and the dispatcher handles nothing once \<open>quit\<close> is
  closed: the interval in which \<open>quit\<close> is closed and the dispatcher may still pick
  a pending message is left out.
\<close>

inductive reachable :: "'t TxConfNotifierOps \<Rightarrow> 't BitcoindNotifier \<Rightarrow> bool"
  for ops :: "'t TxConfNotifierOps"
where
  created: "reachable ops (New unset)"
| started: "reachable ops b \<Longrightarrow> Start ops c b = (err, b') \<Longrightarrow> reachable ops b'"
| unsafeStarted: "reachable ops b \<Longrightarrow> UnsafeStart ops c best b = (err, b') \<Longrightarrow> reachable ops b'"
| dispatched:
    "reachable ops b \<Longrightarrow> dispatcherRunning b \<Longrightarrow> \<not> quit b \<Longrightarrow>
     (\<forall>msg. ev \<noteq> RegisterMsg (RegSpend msg)) \<Longrightarrow>
     notificationDispatcher sched ops c ev b = Some (Inr b') \<Longrightarrow> reachable ops b'"
| spendRegistered:
    "reachable ops b \<Longrightarrow> dispatcherRunning b \<Longrightarrow> \<not> quit b \<Longrightarrow>
     spendChan ntfn < length (chans b) \<Longrightarrow> pristine (chans b ! spendChan ntfn) \<Longrightarrow>
     \<not> registeredChan (spendNotifications b) (spendChan ntfn) \<Longrightarrow>
     notificationDispatcher sched ops c (RegisterMsg (RegSpend ntfn)) b = Some (Inr b') \<Longrightarrow>
     reachable ops b'"
| spendAllocated:
    "reachable ops b \<Longrightarrow> newSpendNotification outpoint b = (ntfn, b') \<Longrightarrow> reachable ops b'"
| epochAllocated:
    "reachable ops b \<Longrightarrow> RegisterBlockEpochNtfn clientBest choice b = Some (res, b') \<Longrightarrow>
     reachable ops b'"
| received: "reachable ops b \<Longrightarrow> reachable ops (b\<lparr>chans := chanRecv (chans b) a\<rparr>)"
| stopped: "reachable ops b \<Longrightarrow> Stop ops b = Inr b' \<Longrightarrow> reachable ops b'"

text \<open>Two notifiers with the same spend registry, channel store and quit signal.\<close>

definition sameSpendSide :: "'t BitcoindNotifier \<Rightarrow> 't BitcoindNotifier \<Rightarrow> bool" where
  "sameSpendSide b b' =
    (spendNotifications b' = spendNotifications b \<and> chans b' = chans b \<and> quit b' = quit b)"

section \<open>Runs and a concrete chain\<close>

text \<open>
  The \<open>int32\<close> heights from \<open>i\<close> to \<open>j\<close> inclusive in ascending order, and the
  epoch of a height whose block hash is given by \<open>hs\<close>.
\<close>

definition int32Range :: "int \<Rightarrow> int \<Rightarrow> int32 list" where
  "int32Range i j = map word_of_int [i..j]"

definition epochsOf :: "(int32 \<Rightarrow> hash) \<Rightarrow> int32 list \<Rightarrow> BlockEpoch list" where
  "epochsOf hs heights = map (\<lambda>h. \<lparr>Height = h, Hash = Some (hs h)\<rparr>) heights"

text \<open>
  The choice that takes the send whenever Go has a choice, and the one that takes
  the \<open>quit\<close> case as soon as it can proceed.
\<close>

definition takeSend :: epochSched where
  "takeSend eid epoch = EpochSend"

definition takeQuit :: epochSched where
  "takeQuit eid epoch = EpochQuit"

text \<open>
  The \<open>for { select { ... } }\<close> loop of \<open>notificationDispatcher\<close> on a sequence of
  messages.
\<close>

fun dispatchAll ::
  "epochSched \<Rightarrow> 't TxConfNotifierOps \<Rightarrow> chainConn \<Rightarrow> event list \<Rightarrow> 't BitcoindNotifier
     \<Rightarrow> (fault + 't BitcoindNotifier) option" where
  "dispatchAll sched ops c [] b = Some (Inr b)"
| "dispatchAll sched ops c (ev # evs) b =
    (case notificationDispatcher sched ops c ev b of
       None \<Rightarrow> None
     | Some (Inl f) \<Rightarrow> Some (Inl f)
     | Some (Inr b') \<Rightarrow> dispatchAll sched ops c evs b')"

text \<open>The heights each client has been sent, oldest first.\<close>

definition epochHeights :: "'t BitcoindNotifier \<Rightarrow> (uint64 \<times> int32 list) list" where
  "epochHeights b =
    map (\<lambda>(eid, epochClient). (eid, map Height (epochQueue epochClient))) (blockEpochClients b)"

text \<open>
  A backend with one chain: the block of height \<open>h\<close> has hash \<open>3000 + h\<close> and no
  transactions. \<open>flakyChain\<close> is the same backend, except that the lookup of the
  hash at height 102 fails.
\<close>

definition lineHash :: "int32 \<Rightarrow> hash" where
  "lineHash h = 3000 + ucast h"

definition lineChain :: chainConn where
  "lineChain =
    noBackend\<lparr>GetBlockHash := (\<lambda>h. Inr (3000 + ucast h)),
              GetBlockHeader := (\<lambda>h. Inr \<lparr>PrevBlock = h - 1, Timestamp = 0\<rparr>),
              GetBlockHeaderVerbose := (\<lambda>h. Inr (ucast (h - 3000))),
              GetBlock := (\<lambda>h. Inr \<lparr>Header = \<lparr>PrevBlock = h - 1, Timestamp = 0\<rparr>,
                                     Transactions = [], BlockHash = h\<rparr>)\<rparr>"

definition flakyChain :: chainConn where
  "flakyChain =
    lineChain\<lparr>GetBlockHash :=
      (\<lambda>h. if h = 102 then Inl (BackendError ''request timed out'') else Inr (3000 + ucast h))\<rparr>"

text \<open>
  An epoch registration as \<open>RegisterBlockEpochNtfn\<close> builds it, and a notifier
  whose tip is the block of height 102 of the chain above.
\<close>

definition epochClient :: "uint64 \<Rightarrow> BlockEpoch option \<Rightarrow> blockEpochRegistration" where
  "epochClient eid best =
    \<lparr>epochID = eid, epochQueue = [], queueStopped = False, regBestBlock = best,
     cancelChanClosed = False, epochChanClosed = False\<rparr>"

definition bitcoindAt102 :: "uint32 BitcoindNotifier" where
  "bitcoindAt102 =
    snd (UnsafeStart heightOnlyTxConfNotifier noBackend \<lparr>Height = 102, Hash = Some 3102\<rparr>
          (New 0))"

text \<open>
  The same notifier after \<open>Stop\<close> has closed \<open>quit\<close>, while \<open>Stop\<close> waits for the
  dispatcher to leave its loop; and the chain's block of height 105.
\<close>

definition stoppingAt102 :: "uint32 BitcoindNotifier" where
  "stoppingAt102 = bitcoindAt102\<lparr>stopped := 1, quit := True\<rparr>"

definition block105 :: BlockEpoch where
  "block105 = \<lparr>Height = 105, Hash = Some 3105\<rparr>"






text \<open>
  The chain above together with a stale fork: the blocks 9099 and 9100, of heights
  99 and 100, on top of the chain's block of height 98. \<open>staleAt100\<close> is a notifier
  started at the stale block of height 100.
\<close>

definition forkedChain :: chainConn where
  "forkedChain =
    lineChain\<lparr>GetBlockHeader :=
      (\<lambda>h. Inr \<lparr>PrevBlock = (if h = 9099 then 3098 else h - 1), Timestamp = 0\<rparr>)\<rparr>"

definition staleBlock100 :: BlockEpoch where
  "staleBlock100 = \<lparr>Height = 100, Hash = Some 9100\<rparr>"

definition staleAt100 :: "uint32 BitcoindNotifier" where
  "staleAt100 =
    snd (UnsafeStart heightOnlyTxConfNotifier noBackend staleBlock100 (New 0))"

section \<open>The concrete notifiers, evaluated\<close>

lemma oneSpendClient_eq:
  "oneSpendClient =
    bitcoindAt100\<lparr>spendClientCounter := 1, chans := [makeChan],
      spendNotifications :=
        [(exampleOutPoint,
          [(1, \<lparr>targetOutpoint = exampleOutPoint, spendChan = 0, spendID = 1,
                heightHint = 0\<rparr>)])]\<rparr>"
  by (simp add: oneSpendClient_def newSpendNotification_def registerSpend_def
      bitcoindAt100_def UnsafeStart_def noBackend_def New_def)


lemma bitcoindAt100_fields:
  "bestBlock bitcoindAt100 = block100" "dispatcherRunning bitcoindAt100"
  "\<not> quit bitcoindAt100" "spendNotifications bitcoindAt100 = []"
  "chans bitcoindAt100 = []" "blockEpochClients bitcoindAt100 = []"
  "txConfNotifier bitcoindAt100 = 100" "errorLog bitcoindAt100 = []"
  "spendClientCounter bitcoindAt100 = 0" "epochClientCounter bitcoindAt100 = 0"
  "stopped bitcoindAt100 = 0"
  by (simp_all add: bitcoindAt100_def UnsafeStart_def noBackend_def New_def
      heightOnlyTxConfNotifier_def block100_def)

lemma reachable_oneSpendClient: "reachable heightOnlyTxConfNotifier oneSpendClient"
proof -
  have 0: "reachable heightOnlyTxConfNotifier (New 0)" by (rule reachable.created)
  have "UnsafeStart heightOnlyTxConfNotifier noBackend block100 (New 0) = (None, bitcoindAt100)"
    by (simp add: bitcoindAt100_def UnsafeStart_def noBackend_def)
  from reachable.unsafeStarted [OF 0 this]
  have 1: "reachable heightOnlyTxConfNotifier bitcoindAt100" .
  obtain ntfn b1 where n: "newSpendNotification exampleOutPoint bitcoindAt100 = (ntfn, b1)"
    by (cases "newSpendNotification exampleOutPoint bitcoindAt100")
  from reachable.spendAllocated [OF 1 n]
  have 2: "reachable heightOnlyTxConfNotifier b1" .
  from n have f: "dispatcherRunning b1" "\<not> quit b1" "spendChan ntfn < length (chans b1)"
    "pristine (chans b1 ! spendChan ntfn)"
    "\<not> registeredChan (spendNotifications b1) (spendChan ntfn)"
    by (auto simp: newSpendNotification_def bitcoindAt100_fields makeChan_def pristine_def
        registeredChan_def)
  from n have "notificationDispatcher takeSend heightOnlyTxConfNotifier noBackend
               (RegisterMsg (RegSpend ntfn)) b1 = Some (Inr oneSpendClient)"
    by (simp add: notificationDispatcher_def handleRegisterMsg_def oneSpendClient_def)
  from reachable.spendRegistered [OF 2 f this] show ?thesis .
qed

lemma oneSpendClient_running: "dispatcherRunning oneSpendClient" "\<not> quit oneSpendClient"
  by (simp_all add: oneSpendClient_eq bitcoindAt100_fields)

lemma bitcoindAt102_fields:
  "bestBlock bitcoindAt102 = \<lparr>Height = 102, Hash = Some 3102\<rparr>"
  "dispatcherRunning bitcoindAt102" "\<not> quit bitcoindAt102"
  "spendNotifications bitcoindAt102 = []" "chans bitcoindAt102 = []"
  "blockEpochClients bitcoindAt102 = []" "txConfNotifier bitcoindAt102 = 102"
  "errorLog bitcoindAt102 = []"
  by (simp_all add: bitcoindAt102_def UnsafeStart_def noBackend_def New_def
      heightOnlyTxConfNotifier_def)

lemma lineChain_fields:
  "GetBlockHash lineChain = (\<lambda>h. Inr (3000 + ucast h))"
  "GetBlockHeader lineChain = (\<lambda>h. Inr \<lparr>PrevBlock = h - 1, Timestamp = 0\<rparr>)"
  "GetBlockHeaderVerbose lineChain = (\<lambda>h. Inr (ucast (h - 3000)))"
  "GetBlock lineChain = (\<lambda>h. Inr \<lparr>Header = \<lparr>PrevBlock = h - 1, Timestamp = 0\<rparr>,
                                     Transactions = [], BlockHash = h\<rparr>)"
  by (simp_all add: lineChain_def noBackend_def)

lemma flakyChain_fields:
  "GetBlockHash flakyChain =
     (\<lambda>h. if h = 102 then Inl (BackendError ''request timed out'') else Inr (3000 + ucast h))"
  "GetBlockHeader flakyChain = GetBlockHeader lineChain"
  "GetBlockHeaderVerbose flakyChain = GetBlockHeaderVerbose lineChain"
  "GetBlock flakyChain = GetBlock lineChain"
  by (simp_all add: flakyChain_def lineChain_def noBackend_def)

lemma heightOnly_fields:
  "ConnectTip heightOnlyTxConfNotifier = (\<lambda>current blockHash blockHeight txns.
        if blockHeight = current + 1 then Inr blockHeight
        else Inl (ErrorsNew ''Received blocks out of order''))"
  "DisconnectTip heightOnlyTxConfNotifier = (\<lambda>current blockHeight.
        if blockHeight = current then Inr (current - 1)
        else Inl (ErrorsNew ''Received blocks out of order''))"
  by (simp_all add: heightOnlyTxConfNotifier_def)

lemma staleAt100_fields:
  "bestBlock staleAt100 = \<lparr>Height = 100, Hash = Some 9100\<rparr>"
  "dispatcherRunning staleAt100" "\<not> quit staleAt100"
  "blockEpochClients staleAt100 = []" "txConfNotifier staleAt100 = 100"
  "errorLog staleAt100 = []"
  by (simp_all add: staleAt100_def staleBlock100_def UnsafeStart_def noBackend_def New_def
      heightOnlyTxConfNotifier_def)

lemma forkedChain_fields:
  "GetBlockHash forkedChain = (\<lambda>h. Inr (3000 + ucast h))"
  "GetBlockHeader forkedChain =
     (\<lambda>h. Inr \<lparr>PrevBlock = (if h = 9099 then 3098 else h - 1), Timestamp = 0\<rparr>)"
  "GetBlockHeaderVerbose forkedChain = (\<lambda>h. Inr (ucast (h - 3000)))"
  "GetBlock forkedChain = (\<lambda>h. Inr \<lparr>Header = \<lparr>PrevBlock = h - 1, Timestamp = 0\<rparr>,
                                     Transactions = [], BlockHash = h\<rparr>)"
  by (simp_all add: forkedChain_def lineChain_def noBackend_def)

lemma forkedChain_ancestor:
  "getCommonBlockAncestorHeight forkedChain 9100 3100 = Some (Inr 98)"
  by (simp add: getCommonBlockAncestorHeight.simps forkedChain_fields)

section \<open>Properties of the common-ancestor walker\<close>

lemma deepFork_fields:
  "GetBlockHeader deepFork = deepForkHeader"
  "GetBlockHeaderVerbose deepFork = deepForkHeight"
  by (simp_all add: deepFork_def noBackend_def)

lemma walker_of_lockstepWalk:
  "lockstepWalk c n a b = Some x \<Longrightarrow>
   getCommonBlockAncestorHeight c a b = Some (heightOfCommon c x)"
proof (induction n arbitrary: a b)
  case 0
  then show ?case
    by (subst getCommonBlockAncestorHeight.simps)
       (auto simp: heightOfCommon_def split: if_splits sum.splits)
next
  case (Suc n)
  show ?case
  proof (cases "a = b")
    case True
    with Suc.prems show ?thesis
      by (subst getCommonBlockAncestorHeight.simps)
         (auto simp: heightOfCommon_def split: sum.splits)
  next
    case False
    with Suc.prems obtain ha hb where
      h: "GetBlockHeader c a = Inr ha" "GetBlockHeader c b = Inr hb"
         "lockstepWalk c n (PrevBlock ha) (PrevBlock hb) = Some x"
      by (auto split: sum.splits)
    from Suc.IH [OF h(3)] False h(1,2) show ?thesis
      by (subst getCommonBlockAncestorHeight.simps) simp
  qed
qed

text \<open>
  C3, as amended. Whenever the lockstep walk meets at a common hash after any number
  \<open>n\<close> of iterations (there is no bound on \<open>n\<close>), \<open>getCommonBlockAncestorHeight\<close>
  returns, and what it returns is the result of the verbose header lookup of that
  common hash: its height, or the lookup's error.
\<close>

theorem C3_walker_returns_height_of_common_hash:
  "lockstepWalk c n a b = Some x \<Longrightarrow>
   getCommonBlockAncestorHeight c a b = Some (heightOfCommon c x)"
  by (rule walker_of_lockstepWalk)

theorem C3_walker_returns_height_of_common_hash_witness:
  "lockstepWalk deepFork (Suc (Suc 0)) 1002 2002 = Some 5 \<and>
   getCommonBlockAncestorHeight deepFork 1002 2002 = Some (Inr 0)"
proof -
  have w: "lockstepWalk deepFork (Suc (Suc 0)) 1002 2002 = Some 5"
    by (simp add: deepFork_fields deepForkHeader_def)
  from C3_walker_returns_height_of_common_hash [OF w] w show ?thesis
    by (simp add: heightOfCommon_def deepFork_fields deepForkHeight_def)
qed

lemma lockstepWalk_numeral:
  "lockstepWalk c (numeral k) a b =
    (if a = b then Some a
     else (case GetBlockHeader c a of
             Inl err \<Rightarrow> None
           | Inr ha \<Rightarrow>
              (case GetBlockHeader c b of
                 Inl err \<Rightarrow> None
               | Inr hb \<Rightarrow> lockstepWalk c (pred_numeral k) (PrevBlock ha) (PrevBlock hb))))"
  by (simp add: numeral_eq_Suc)

text \<open>
  C3 as stated fails: on the forks of depth 101 the hashes are still different after
  100 lockstep iterations, and the walker goes on and returns the height 0 of the
  common block; no error is returned for the depth.
\<close>

theorem C3_no_iteration_bound_counterexample:
  "lockstepWalk deepFork 100 1101 2101 = None \<and>
   getCommonBlockAncestorHeight deepFork 1101 2101 = Some (Inr 0)"
proof
  show "lockstepWalk deepFork 100 1101 2101 = None"
    by (simp add: lockstepWalk_numeral deepFork_fields deepForkHeader_def)
  show "getCommonBlockAncestorHeight deepFork 1101 2101 = Some (Inr 0)"
    by (simp add: getCommonBlockAncestorHeight.simps deepFork_fields
        deepForkHeader_def deepForkHeight_def)
qed

section \<open>Spend notifications: the dispatch loop\<close>

lemma chanSend_pristine:
  "a < length cs \<Longrightarrow> pristine (cs ! a) \<Longrightarrow>
   chanSend cs a d = Inr (cs[a := (cs ! a)\<lparr>buf := [d]\<rparr>])"
  by (simp add: chanSend_def pristine_def)

lemma fire_pristine:
  assumes "a < length cs" "pristine (cs ! a)"
  shows "(case chanSend cs a d of Inl f \<Rightarrow> Inl f | Inr cs1 \<Rightarrow> chanClose cs1 a)
          = Inr (cs[a := \<lparr>buf = [d], closed = True, recvd = []\<rparr>])"
proof -
  have eq: "(cs ! a)\<lparr>buf := [d], closed := True\<rparr> = \<lparr>buf = [d], closed = True, recvd = []\<rparr>"
    using assms(2) by (intro chan.equality) (simp_all add: pristine_def)
  from assms show ?thesis
    by (simp add: chanSend_def chanClose_def pristine_def eq)
qed

lemma notifySpendClients_fires:
  "distinct (map (\<lambda>e. spendChan (snd e)) clients) \<Longrightarrow>
   \<forall>a \<in> chanSet clients. a < length cs \<and> pristine (cs ! a) \<Longrightarrow>
   \<exists>cs'. notifySpendClients d clients cs = Inr cs' \<and> length cs' = length cs \<and>
         (\<forall>a < length cs. cs' ! a =
            (if a \<in> chanSet clients then \<lparr>buf = [d], closed = True, recvd = []\<rparr> else cs ! a))"
proof (induction clients arbitrary: cs)
  case Nil
  then show ?case by (simp add: chanSet_def)
next
  case (Cons e clients)
  obtain sid ntfn where e: "e = (sid, ntfn)" by (cases e)
  let ?a = "spendChan ntfn"
  let ?cs2 = "cs[?a := \<lparr>buf = [d], closed = True, recvd = []\<rparr>]"
  from Cons.prems e have a: "?a < length cs" "pristine (cs ! ?a)"
    by (auto simp: chanSet_def)
  from Cons.prems e have notin: "?a \<notin> chanSet clients"
    by (auto simp: chanSet_def)
  have step: "notifySpendClients d (e # clients) cs = notifySpendClients d clients ?cs2"
    using fire_pristine [OF a, of d] e
    by (auto split: sum.splits)
  have pre: "\<forall>x \<in> chanSet clients. x < length ?cs2 \<and> pristine (?cs2 ! x)"
  proof
    fix x assume x: "x \<in> chanSet clients"
    with notin have "x \<noteq> ?a" by blast
    moreover from x Cons.prems(2) have "x < length cs \<and> pristine (cs ! x)"
      by (auto simp: chanSet_def)
    ultimately show "x < length ?cs2 \<and> pristine (?cs2 ! x)" by simp
  qed
  from Cons.prems have dis: "distinct (map (\<lambda>e. spendChan (snd e)) clients)" by simp
  from Cons.IH [OF dis pre] obtain cs' where
    r: "notifySpendClients d clients ?cs2 = Inr cs'" "length cs' = length ?cs2"
       "\<forall>x < length ?cs2. cs' ! x =
          (if x \<in> chanSet clients then \<lparr>buf = [d], closed = True, recvd = []\<rparr> else ?cs2 ! x)"
    by blast
  have "\<forall>x < length cs. cs' ! x =
          (if x \<in> chanSet (e # clients) then \<lparr>buf = [d], closed = True, recvd = []\<rparr> else cs ! x)"
    using r(3) a(1) e by (auto simp: chanSet_def nth_list_update)
  with r(1,2) step show ?case by simp
qed


lemma atMostOnce_fired [simp]: "atMostOnce \<lparr>buf = [d], closed = True, recvd = []\<rparr>"
  by (simp add: atMostOnce_def delivered_def)

lemma not_pristine_fired [simp]: "\<not> pristine \<lparr>buf = [d], closed = True, recvd = []\<rparr>"
  by (simp add: pristine_def)

lemma pristine_not_delivered: "pristine ch \<Longrightarrow> delivered ch = []"
  by (simp add: pristine_def delivered_def)

lemma fire_outpoint_keeps_spendOK:
  assumes ok: "spendOK sn cs" and look: "map_of sn op = Some clients"
  shows "\<exists>cs'. notifySpendClients d clients cs = Inr cs' \<and> length cs' = length cs \<and>
           (\<forall>a < length cs. cs' ! a =
              (if a \<in> chanSet clients then \<lparr>buf = [d], closed = True, recvd = []\<rparr> else cs ! a)) \<and>
           spendOK (AList.delete op sn) cs'"
proof -
  from ok have p: "pendingOK sn cs" by (simp add: spendOK_def)
  from p look have dis: "distinct (map (\<lambda>e. spendChan (snd e)) clients)"
    and pr: "\<forall>a \<in> chanSet clients. a < length cs \<and> pristine (cs ! a)"
    unfolding pendingOK_def by blast+
  from notifySpendClients_fires [OF dis pr, of d] obtain cs' where
    r: "notifySpendClients d clients cs = Inr cs'" "length cs' = length cs"
       "\<forall>a < length cs. cs' ! a =
          (if a \<in> chanSet clients then \<lparr>buf = [d], closed = True, recvd = []\<rparr> else cs ! a)"
    by blast
  have m: "\<And>op2 cl2. map_of (AList.delete op sn) op2 = Some cl2 \<Longrightarrow>
             op2 \<noteq> op \<and> map_of sn op2 = Some cl2"
    by (auto simp: delete_conv' split: if_splits)
  have disj: "\<And>op2 cl2. map_of (AList.delete op sn) op2 = Some cl2 \<Longrightarrow>
             chanSet cl2 \<inter> chanSet clients = {}"
  proof -
    fix op2 cl2 assume "map_of (AList.delete op sn) op2 = Some cl2"
    then have "op2 \<noteq> op" "map_of sn op2 = Some cl2" using m by blast+
    with p look show "chanSet cl2 \<inter> chanSet clients = {}"
      unfolding pendingOK_def by blast
  qed
  have p': "pendingOK (AList.delete op sn) cs'"
    unfolding pendingOK_def
  proof (intro conjI allI impI)
    fix op2 cl2 assume l: "map_of (AList.delete op sn) op2 = Some cl2"
    then have l2: "map_of sn op2 = Some cl2" using m by blast
    with p show "distinct (map (\<lambda>e. spendChan (snd e)) cl2)"
      unfolding pendingOK_def by blast
    show "\<forall>a \<in> chanSet cl2. a < length cs' \<and> pristine (cs' ! a)"
    proof
      fix a assume a: "a \<in> chanSet cl2"
      with disj [OF l] have "a \<notin> chanSet clients" by blast
      moreover from p l2 a have "a < length cs \<and> pristine (cs ! a)"
        unfolding pendingOK_def by blast
      ultimately show "a < length cs' \<and> pristine (cs' ! a)" using r by simp
    qed
  next
    fix op2 op3 cl2 cl3
    assume "map_of (AList.delete op sn) op2 = Some cl2"
       "map_of (AList.delete op sn) op3 = Some cl3" "op2 \<noteq> op3"
    then have "map_of sn op2 = Some cl2" "map_of sn op3 = Some cl3" "op2 \<noteq> op3"
      using m by blast+
    with p show "chanSet cl2 \<inter> chanSet cl3 = {}"
      unfolding pendingOK_def by blast
  qed
  have c': "\<forall>a < length cs'. atMostOnce (cs' ! a) \<and>
        (delivered (cs' ! a) \<noteq> [] \<longrightarrow> \<not> registeredChan (AList.delete op sn) a)"
  proof (intro allI impI)
    fix a assume a: "a < length cs'"
    show "atMostOnce (cs' ! a) \<and>
        (delivered (cs' ! a) \<noteq> [] \<longrightarrow> \<not> registeredChan (AList.delete op sn) a)"
    proof (cases "a \<in> chanSet clients")
      case True
      then have "\<not> registeredChan (AList.delete op sn) a"
        unfolding registeredChan_def using disj by blast
      with True a r show ?thesis by simp
    next
      case False
      with a r have same: "cs' ! a = cs ! a" by simp
      from ok a r(2) have old: "atMostOnce (cs ! a)"
        "delivered (cs ! a) \<noteq> [] \<longrightarrow> \<not> registeredChan sn a"
        by (simp_all add: spendOK_def)
      have "registeredChan (AList.delete op sn) a \<Longrightarrow> registeredChan sn a"
        unfolding registeredChan_def using m by blast
      with old same show ?thesis by auto
    qed
  qed
  from p' c' have "spendOK (AList.delete op sn) cs'" by (simp add: spendOK_def)
  with r show ?thesis by blast
qed

lemma relevantTxLoop_spendOK:
  assumes P: "\<And>j op. SpendingHeight (spendDetailsFor tx bh j op) = h"
  shows "spendOK sn cs \<Longrightarrow>
   \<exists>sn' cs'. relevantTxLoop tx bh i ins sn cs = Inr (sn', cs') \<and>
     spendOK sn' cs' \<and> length cs' = length cs \<and>
     (\<forall>op. map_of sn' op = (if op \<in> set ins then None else map_of sn op)) \<and>
     (\<forall>op \<in> set ins. \<forall>clients. map_of sn op = Some clients \<longrightarrow>
        (\<forall>a \<in> chanSet clients. \<exists>d. cs' ! a = \<lparr>buf = [d], closed = True, recvd = []\<rparr> \<and>
            SpendingHeight d = h)) \<and>
     (\<forall>a < length cs. cs' ! a = cs ! a \<or>
        (\<exists>d. cs' ! a = \<lparr>buf = [d], closed = True, recvd = []\<rparr> \<and> SpendingHeight d = h))"
proof (induction ins arbitrary: i sn cs)
  case Nil
  then show ?case by simp
next
  case (Cons prevOut ins)
  show ?case
  proof (cases "map_of sn prevOut")
    case None
    from Cons.IH [OF Cons.prems, of "Suc i"] obtain sn' cs' where
      r: "relevantTxLoop tx bh (Suc i) ins sn cs = Inr (sn', cs')"
         "spendOK sn' cs'" "length cs' = length cs"
         "\<forall>op. map_of sn' op = (if op \<in> set ins then None else map_of sn op)"
         "\<forall>op \<in> set ins. \<forall>clients. map_of sn op = Some clients \<longrightarrow>
            (\<forall>a \<in> chanSet clients. \<exists>d. cs' ! a = \<lparr>buf = [d], closed = True, recvd = []\<rparr> \<and>
               SpendingHeight d = h)"
         "\<forall>a < length cs. cs' ! a = cs ! a \<or>
            (\<exists>d. cs' ! a = \<lparr>buf = [d], closed = True, recvd = []\<rparr> \<and> SpendingHeight d = h)"
      by blast
    have "relevantTxLoop tx bh i (prevOut # ins) sn cs = Inr (sn', cs')"
      using None r(1) by simp
    moreover have "\<forall>op. map_of sn' op = (if op \<in> set (prevOut # ins) then None else map_of sn op)"
      using r(4) None by auto
    moreover have "\<forall>op \<in> set (prevOut # ins). \<forall>clients. map_of sn op = Some clients \<longrightarrow>
            (\<forall>a \<in> chanSet clients. \<exists>d. cs' ! a = \<lparr>buf = [d], closed = True, recvd = []\<rparr> \<and>
               SpendingHeight d = h)"
      using r(5) None by auto
    ultimately show ?thesis using r(2,3,6) by blast
  next
    case (Some clients)
    let ?d = "spendDetailsFor tx bh i prevOut"
    from fire_outpoint_keeps_spendOK [OF Cons.prems Some, of ?d] obtain cs1 where
      f: "notifySpendClients ?d clients cs = Inr cs1" "length cs1 = length cs"
         "\<forall>a < length cs. cs1 ! a =
            (if a \<in> chanSet clients then \<lparr>buf = [?d], closed = True, recvd = []\<rparr> else cs ! a)"
         "spendOK (AList.delete prevOut sn) cs1"
      by blast
    from Cons.IH [OF f(4), of "Suc i"] obtain sn' cs' where
      r: "relevantTxLoop tx bh (Suc i) ins (AList.delete prevOut sn) cs1 = Inr (sn', cs')"
         "spendOK sn' cs'" "length cs' = length cs1"
         "\<forall>op. map_of sn' op =
            (if op \<in> set ins then None else map_of (AList.delete prevOut sn) op)"
         "\<forall>op \<in> set ins. \<forall>cl. map_of (AList.delete prevOut sn) op = Some cl \<longrightarrow>
            (\<forall>a \<in> chanSet cl. \<exists>d. cs' ! a = \<lparr>buf = [d], closed = True, recvd = []\<rparr> \<and>
               SpendingHeight d = h)"
         "\<forall>a < length cs1. cs' ! a = cs1 ! a \<or>
            (\<exists>d. cs' ! a = \<lparr>buf = [d], closed = True, recvd = []\<rparr> \<and> SpendingHeight d = h)"
      by blast
    have run: "relevantTxLoop tx bh i (prevOut # ins) sn cs = Inr (sn', cs')"
      using Some f(1) r(1) by simp
    have maps: "\<forall>op. map_of sn' op = (if op \<in> set (prevOut # ins) then None else map_of sn op)"
      using r(4) by (auto simp: delete_conv')
    have inrange: "\<And>a. a \<in> chanSet clients \<Longrightarrow> a < length cs"
      using Cons.prems Some unfolding spendOK_def pendingOK_def by blast
    have fired: "\<forall>a < length cs. cs1 ! a = cs ! a \<or>
        (\<exists>d. cs1 ! a = \<lparr>buf = [d], closed = True, recvd = []\<rparr> \<and> SpendingHeight d = h)"
      using f(3) P by auto
    have all: "\<forall>a < length cs. cs' ! a = cs ! a \<or>
        (\<exists>d. cs' ! a = \<lparr>buf = [d], closed = True, recvd = []\<rparr> \<and> SpendingHeight d = h)"
    proof (intro allI impI)
      fix a assume a: "a < length cs"
      with r(6) f(2) have "cs' ! a = cs1 ! a \<or>
        (\<exists>d. cs' ! a = \<lparr>buf = [d], closed = True, recvd = []\<rparr> \<and> SpendingHeight d = h)"
        by simp
      with fired a show "cs' ! a = cs ! a \<or>
        (\<exists>d. cs' ! a = \<lparr>buf = [d], closed = True, recvd = []\<rparr> \<and> SpendingHeight d = h)"
        by metis
    qed
    have hit: "\<forall>op \<in> set (prevOut # ins). \<forall>cl. map_of sn op = Some cl \<longrightarrow>
            (\<forall>a \<in> chanSet cl. \<exists>d. cs' ! a = \<lparr>buf = [d], closed = True, recvd = []\<rparr> \<and>
               SpendingHeight d = h)"
    proof (intro ballI allI impI)
      fix op cl a
      assume op: "op \<in> set (prevOut # ins)" and cl: "map_of sn op = Some cl"
        and a: "a \<in> chanSet cl"
      show "\<exists>d. cs' ! a = \<lparr>buf = [d], closed = True, recvd = []\<rparr> \<and> SpendingHeight d = h"
      proof (cases "op = prevOut")
        case True
        with cl Some have "cl = clients" by simp
        with a have ac: "a \<in> chanSet clients" by simp
        then have al: "a < length cs" by (rule inrange)
        with f(3) ac have "cs1 ! a = \<lparr>buf = [?d], closed = True, recvd = []\<rparr>" by simp
        moreover from r(6) al f(2) have "cs' ! a = cs1 ! a \<or>
          (\<exists>d. cs' ! a = \<lparr>buf = [d], closed = True, recvd = []\<rparr> \<and> SpendingHeight d = h)"
          by simp
        ultimately show ?thesis using P by metis
      next
        case False
        with op have "op \<in> set ins" by simp
        moreover from False cl have "map_of (AList.delete prevOut sn) op = Some cl"
          by (simp add: delete_conv')
        ultimately show ?thesis using r(5) a by blast
      qed
    qed
    from run r(2) r(3) f(2) maps hit all show ?thesis by simp
  qed
qed

subsection \<open>Cancellation and registration keep the registry in order\<close>

lemma delete_is_filter: "AList.delete k al = filter (\<lambda>e. fst e \<noteq> k) al"
  by (induction al) auto

lemma chanSet_delete_subset: "chanSet (AList.delete k al) \<subseteq> chanSet al"
  by (auto simp: chanSet_def delete_is_filter)

lemma distinct_chans_delete:
  "distinct (map (\<lambda>e. spendChan (snd e)) al) \<Longrightarrow>
   distinct (map (\<lambda>e. spendChan (snd e)) (AList.delete k al))"
  by (simp add: delete_is_filter distinct_map_filter)

lemma deleted_chan_gone:
  assumes d: "distinct (map (\<lambda>e. spendChan (snd e)) al)" and m: "map_of al k = Some ntfn"
  shows "spendChan ntfn \<notin> chanSet (AList.delete k al)"
proof
  assume "spendChan ntfn \<in> chanSet (AList.delete k al)"
  then obtain e where e: "e \<in> set al" "fst e \<noteq> k" "spendChan (snd e) = spendChan ntfn"
    by (auto simp: chanSet_def delete_is_filter)
  from m have k: "(k, ntfn) \<in> set al" by (rule map_of_SomeD)
  from d have "inj_on (\<lambda>e. spendChan (snd e)) (set al)" by (simp add: distinct_map)
  from inj_onD [OF this _ e(1) k] e(3) have "e = (k, ntfn)" by simp
  with e(2) show False by simp
qed

lemma set_update_subset: "set (AList.update k v al) \<subseteq> insert (k, v) (set al)"
  by (induction al) auto

lemma chanSet_update_subset:
  "chanSet (AList.update k v al) \<subseteq> insert (spendChan v) (chanSet al)"
  using set_update_subset [of k v al] by (auto simp: chanSet_def)

lemma distinct_chans_update:
  "distinct (map (\<lambda>e. spendChan (snd e)) al) \<Longrightarrow> spendChan v \<notin> chanSet al \<Longrightarrow>
   distinct (map (\<lambda>e. spendChan (snd e)) (AList.update k v al))"
proof (induction al)
  case Nil
  then show ?case by simp
next
  case (Cons e al)
  obtain k' v' where e: "e = (k', v')" by (cases e)
  show ?case
  proof (cases "k' = k")
    case True
    with Cons.prems e show ?thesis by (auto simp: chanSet_def)
  next
    case False
    from Cons.prems have "spendChan v \<notin> chanSet al" by (auto simp: chanSet_def)
    with Cons have d: "distinct (map (\<lambda>e. spendChan (snd e)) (AList.update k v al))" by simp
    have "spendChan v' \<notin> chanSet (AList.update k v al)"
      using chanSet_update_subset [of k v al] Cons.prems e by (auto simp: chanSet_def)
    with d False e show ?thesis by (simp add: chanSet_def)
  qed
qed

lemma cancel_keeps_spendOK:
  assumes ok: "spendOK sn cs" and look: "map_of sn op = Some cl"
    and look2: "map_of cl sid = Some ntfn"
  shows "\<exists>cs'. chanClose cs (spendChan ntfn) = Inr cs' \<and>
           spendOK (AList.update op (AList.delete sid cl) sn) cs'"
proof -
  let ?a = "spendChan ntfn"
  let ?cl' = "AList.delete sid cl"
  let ?sn' = "AList.update op ?cl' sn"
  let ?cs' = "cs[?a := (cs ! ?a)\<lparr>closed := True\<rparr>]"
  from ok have p: "pendingOK sn cs" by (simp add: spendOK_def)
  from look2 have mem: "(sid, ntfn) \<in> set cl" by (rule map_of_SomeD)
  then have ain: "?a \<in> chanSet cl" by (force simp: chanSet_def)
  from p look have dis: "distinct (map (\<lambda>e. spendChan (snd e)) cl)"
    and pr: "\<forall>a \<in> chanSet cl. a < length cs \<and> pristine (cs ! a)"
    unfolding pendingOK_def by blast+
  from pr ain have a: "?a < length cs" "pristine (cs ! ?a)" by blast+
  then have close: "chanClose cs ?a = Inr ?cs'"
    by (simp add: chanClose_def pristine_def)
  have gone: "?a \<notin> chanSet ?cl'" by (rule deleted_chan_gone [OF dis look2])
  have m: "\<And>op2 cl2. map_of ?sn' op2 = Some cl2 \<Longrightarrow>
      (op2 = op \<and> cl2 = ?cl') \<or> (op2 \<noteq> op \<and> map_of sn op2 = Some cl2)"
    by (auto simp: update_conv' split: if_splits)
  have sub: "\<And>op2 cl2. map_of ?sn' op2 = Some cl2 \<Longrightarrow>
      \<exists>cl0. map_of sn op2 = Some cl0 \<and> chanSet cl2 \<subseteq> chanSet cl0 \<and> ?a \<notin> chanSet cl2"
  proof -
    fix op2 cl2 assume l: "map_of ?sn' op2 = Some cl2"
    show "\<exists>cl0. map_of sn op2 = Some cl0 \<and> chanSet cl2 \<subseteq> chanSet cl0 \<and> ?a \<notin> chanSet cl2"
    proof (cases "op2 = op")
      case True
      with m [OF l] have "cl2 = ?cl'" by simp
      with True look gone chanSet_delete_subset [of sid cl] show ?thesis by simp
    next
      case False
      with m [OF l] have l2: "map_of sn op2 = Some cl2" by simp
      with p look False have "chanSet cl2 \<inter> chanSet cl = {}"
        unfolding pendingOK_def by blast
      with ain have "?a \<notin> chanSet cl2" by blast
      with l2 show ?thesis by blast
    qed
  qed
  have p': "pendingOK ?sn' ?cs'"
    unfolding pendingOK_def
  proof (intro conjI allI impI)
    fix op2 cl2 assume l: "map_of ?sn' op2 = Some cl2"
    show "distinct (map (\<lambda>e. spendChan (snd e)) cl2)"
    proof (cases "op2 = op")
      case True
      with m [OF l] have "cl2 = ?cl'" by simp
      with dis show ?thesis by (simp add: distinct_chans_delete)
    next
      case False
      with m [OF l] have "map_of sn op2 = Some cl2" by simp
      with p show ?thesis unfolding pendingOK_def by blast
    qed
    show "\<forall>x \<in> chanSet cl2. x < length ?cs' \<and> pristine (?cs' ! x)"
    proof
      fix x assume x: "x \<in> chanSet cl2"
      from sub [OF l] obtain cl0 where
        c: "map_of sn op2 = Some cl0" "chanSet cl2 \<subseteq> chanSet cl0" "?a \<notin> chanSet cl2"
        by blast
      with x have "x \<in> chanSet cl0" "x \<noteq> ?a" by blast+
      moreover from p c(1) \<open>x \<in> chanSet cl0\<close> have "x < length cs \<and> pristine (cs ! x)"
        unfolding pendingOK_def by blast
      ultimately show "x < length ?cs' \<and> pristine (?cs' ! x)" by simp
    qed
  next
    fix op2 op3 cl2 cl3
    assume l2: "map_of ?sn' op2 = Some cl2" and l3: "map_of ?sn' op3 = Some cl3"
      and ne: "op2 \<noteq> op3"
    from sub [OF l2] obtain c2 where c2: "map_of sn op2 = Some c2" "chanSet cl2 \<subseteq> chanSet c2"
      by blast
    from sub [OF l3] obtain c3 where c3: "map_of sn op3 = Some c3" "chanSet cl3 \<subseteq> chanSet c3"
      by blast
    from p c2(1) c3(1) ne have "chanSet c2 \<inter> chanSet c3 = {}"
      unfolding pendingOK_def by blast
    with c2(2) c3(2) show "chanSet cl2 \<inter> chanSet cl3 = {}" by blast
  qed
  have c': "\<forall>x < length ?cs'. atMostOnce (?cs' ! x) \<and>
        (delivered (?cs' ! x) \<noteq> [] \<longrightarrow> \<not> registeredChan ?sn' x)"
  proof (intro allI impI)
    fix x assume x: "x < length ?cs'"
    show "atMostOnce (?cs' ! x) \<and> (delivered (?cs' ! x) \<noteq> [] \<longrightarrow> \<not> registeredChan ?sn' x)"
    proof (cases "x = ?a")
      case True
      with a show ?thesis by (simp add: atMostOnce_def delivered_def pristine_def)
    next
      case False
      with x have same: "?cs' ! x = cs ! x" by simp
      from ok x have old: "atMostOnce (cs ! x)"
        "delivered (cs ! x) \<noteq> [] \<longrightarrow> \<not> registeredChan sn x"
        by (simp_all add: spendOK_def)
      have "registeredChan ?sn' x \<Longrightarrow> registeredChan sn x"
        unfolding registeredChan_def using sub by blast
      with old same show ?thesis by auto
    qed
  qed
  from p' c' have "spendOK ?sn' ?cs'" by (simp add: spendOK_def)
  with close show ?thesis by blast
qed

lemma register_keeps_spendOK:
  assumes ok: "spendOK sn cs" and a: "spendChan ntfn < length cs"
    and pr: "pristine (cs ! spendChan ntfn)"
    and unreg: "\<not> registeredChan sn (spendChan ntfn)"
  shows "spendOK
           (AList.update op
              (AList.update sid ntfn (case map_of sn op of None \<Rightarrow> [] | Some cl \<Rightarrow> cl)) sn)
           cs"
proof -
  let ?a = "spendChan ntfn"
  let ?cl0 = "(case map_of sn op of None \<Rightarrow> [] | Some cl \<Rightarrow> cl)"
  let ?cl' = "AList.update sid ntfn ?cl0"
  let ?sn' = "AList.update op ?cl' sn"
  from ok have p: "pendingOK sn cs" by (simp add: spendOK_def)
  have old: "\<And>op2 cl2 x. map_of sn op2 = Some cl2 \<Longrightarrow> x \<in> chanSet cl2 \<Longrightarrow>
      x < length cs \<and> pristine (cs ! x)"
    using p unfolding pendingOK_def by blast
  have away: "\<And>op2 cl2. map_of sn op2 = Some cl2 \<Longrightarrow> ?a \<notin> chanSet cl2"
    using unreg unfolding registeredChan_def by blast
  have cl0: "distinct (map (\<lambda>e. spendChan (snd e)) ?cl0)"
    "\<forall>x \<in> chanSet ?cl0. x < length cs \<and> pristine (cs ! x)"
    "\<forall>op2 cl2. map_of sn op2 = Some cl2 \<longrightarrow> op2 \<noteq> op \<longrightarrow> chanSet cl2 \<inter> chanSet ?cl0 = {}"
    "?a \<notin> chanSet ?cl0"
  proof -
    show "distinct (map (\<lambda>e. spendChan (snd e)) ?cl0)"
    proof (cases "map_of sn op")
      case None then show ?thesis by simp
    next
      case (Some cl) with p show ?thesis unfolding pendingOK_def by auto
    qed
    show "\<forall>x \<in> chanSet ?cl0. x < length cs \<and> pristine (cs ! x)"
    proof (cases "map_of sn op")
      case None then show ?thesis by (simp add: chanSet_def)
    next
      case (Some cl) with old show ?thesis by auto
    qed
    show "\<forall>op2 cl2. map_of sn op2 = Some cl2 \<longrightarrow> op2 \<noteq> op \<longrightarrow>
            chanSet cl2 \<inter> chanSet ?cl0 = {}"
    proof (cases "map_of sn op")
      case None then show ?thesis by (simp add: chanSet_def)
    next
      case (Some cl)
      with p have "\<forall>op2 cl2. map_of sn op2 = Some cl2 \<longrightarrow> op2 \<noteq> op \<longrightarrow>
            chanSet cl2 \<inter> chanSet cl = {}"
        unfolding pendingOK_def by blast
      with Some show ?thesis by simp
    qed
    show "?a \<notin> chanSet ?cl0"
    proof (cases "map_of sn op")
      case None then show ?thesis by (simp add: chanSet_def)
    next
      case (Some cl) with away show ?thesis by simp
    qed
  qed
  have dis': "distinct (map (\<lambda>e. spendChan (snd e)) ?cl')"
    by (rule distinct_chans_update [OF cl0(1) cl0(4)])
  have sub': "chanSet ?cl' \<subseteq> insert ?a (chanSet ?cl0)"
    by (rule chanSet_update_subset)
  have m: "\<And>op2 cl2. map_of ?sn' op2 = Some cl2 \<Longrightarrow>
      (op2 = op \<and> cl2 = ?cl') \<or> (op2 \<noteq> op \<and> map_of sn op2 = Some cl2)"
    by (auto simp: update_conv' split: if_splits)
  have pr': "\<And>op2 cl2 x. map_of ?sn' op2 = Some cl2 \<Longrightarrow> x \<in> chanSet cl2 \<Longrightarrow>
      x < length cs \<and> pristine (cs ! x)"
  proof -
    fix op2 cl2 x assume l: "map_of ?sn' op2 = Some cl2" and x: "x \<in> chanSet cl2"
    show "x < length cs \<and> pristine (cs ! x)"
    proof (cases "op2 = op")
      case True
      with m [OF l] x sub' have "x = ?a \<or> x \<in> chanSet ?cl0" by auto
      with a pr cl0(2) show ?thesis by auto
    next
      case False
      with m [OF l] x old show ?thesis by blast
    qed
  qed
  have p': "pendingOK ?sn' cs"
    unfolding pendingOK_def
  proof (intro conjI allI impI)
    fix op2 cl2 assume l: "map_of ?sn' op2 = Some cl2"
    show "distinct (map (\<lambda>e. spendChan (snd e)) cl2)"
    proof (cases "op2 = op")
      case True
      with m [OF l] dis' show ?thesis by simp
    next
      case False
      with m [OF l] p show ?thesis unfolding pendingOK_def by blast
    qed
    show "\<forall>x \<in> chanSet cl2. x < length cs \<and> pristine (cs ! x)"
      using pr' [OF l] by blast
  next
    fix op2 op3 cl2 cl3
    assume l2: "map_of ?sn' op2 = Some cl2" and l3: "map_of ?sn' op3 = Some cl3"
      and ne: "op2 \<noteq> op3"
    have other: "\<And>opx clx. map_of sn opx = Some clx \<Longrightarrow> opx \<noteq> op \<Longrightarrow>
        chanSet clx \<inter> chanSet ?cl' = {}"
    proof -
      fix opx clx assume lx: "map_of sn opx = Some clx" and nx: "opx \<noteq> op"
      from cl0(3) lx nx have "chanSet clx \<inter> chanSet ?cl0 = {}" by blast
      moreover from away [OF lx] have "?a \<notin> chanSet clx" .
      ultimately show "chanSet clx \<inter> chanSet ?cl' = {}" using sub' by blast
    qed
    show "chanSet cl2 \<inter> chanSet cl3 = {}"
    proof (cases "op2 = op")
      case True
      with ne m [OF l2] m [OF l3] have "cl2 = ?cl'" "op3 \<noteq> op" "map_of sn op3 = Some cl3"
        by auto
      with other show ?thesis by blast
    next
      case False
      with m [OF l2] have s2: "map_of sn op2 = Some cl2" by simp
      show ?thesis
      proof (cases "op3 = op")
        case True
        with m [OF l3] have "cl3 = ?cl'" by simp
        with other [OF s2 False] show ?thesis by simp
      next
        case False
        with m [OF l3] have "map_of sn op3 = Some cl3" by simp
        with p s2 ne show ?thesis unfolding pendingOK_def by blast
      qed
    qed
  qed
  have c': "\<forall>x < length cs. atMostOnce (cs ! x) \<and>
        (delivered (cs ! x) \<noteq> [] \<longrightarrow> \<not> registeredChan ?sn' x)"
  proof (intro allI impI)
    fix x assume x: "x < length cs"
    with ok have o: "atMostOnce (cs ! x)" by (simp add: spendOK_def)
    have "registeredChan ?sn' x \<Longrightarrow> delivered (cs ! x) = []"
      unfolding registeredChan_def using pr' pristine_not_delivered by blast
    with o show "atMostOnce (cs ! x) \<and> (delivered (cs ! x) \<noteq> [] \<longrightarrow> \<not> registeredChan ?sn' x)"
      by auto
  qed
  from p' c' show ?thesis by (simp add: spendOK_def)
qed

lemma spendInv_of_spendOK:
  "spendOK (spendNotifications b) (chans b) \<Longrightarrow> spendInv b"
  by (simp add: spendOK_def spendInv_def)

lemma spendOK_of_spendInv:
  "spendInv b \<Longrightarrow> \<not> quit b \<Longrightarrow> spendOK (spendNotifications b) (chans b)"
  by (simp add: spendOK_def spendInv_def)

lemma spendInv_frame:
  "spendNotifications b' = spendNotifications b \<Longrightarrow> chans b' = chans b \<Longrightarrow>
   quit b' = quit b \<Longrightarrow> spendInv b \<Longrightarrow> spendInv b'"
  by (simp add: spendInv_def)

text \<open>A change of the store that keeps what was sent and what was closed.\<close>

lemma spendInv_store_change:
  assumes inv: "spendInv b"
    and len: "length cs' = length (chans b)"
    and same: "\<forall>x < length (chans b). delivered (cs' ! x) = delivered (chans b ! x) \<and>
                 (closed (chans b ! x) \<longrightarrow> closed (cs' ! x)) \<and>
                 (pristine (chans b ! x) \<longrightarrow> q \<or> cs' ! x = chans b ! x)"
    and q: "q' = (quit b \<or> q)"
  shows "spendInv (b\<lparr>chans := cs', quit := q'\<rparr>)"
proof -
  have "\<not> q' \<Longrightarrow> pendingOK (spendNotifications b) cs'"
  proof -
    assume nq: "\<not> q'"
    with q inv have p: "pendingOK (spendNotifications b) (chans b)" and "\<not> q"
      by (simp_all add: spendInv_def)
    show "pendingOK (spendNotifications b) cs'"
      unfolding pendingOK_def
    proof (intro conjI allI impI ballI)
      fix op cl assume l: "map_of (spendNotifications b) op = Some cl"
      with p show "distinct (map (\<lambda>e. spendChan (snd e)) cl)"
        unfolding pendingOK_def by blast
      fix x assume "x \<in> chanSet cl"
      with p l have "x < length (chans b) \<and> pristine (chans b ! x)"
        unfolding pendingOK_def by blast
      with same \<open>\<not> q\<close> len show "x < length cs'" "pristine (cs' ! x)" by auto
    next
      fix op op' cl cl'
      assume "map_of (spendNotifications b) op = Some cl"
        "map_of (spendNotifications b) op' = Some cl'" "op \<noteq> op'"
      with p show "chanSet cl \<inter> chanSet cl' = {}" unfolding pendingOK_def by blast
    qed
  qed
  moreover have "\<forall>x < length cs'. atMostOnce (cs' ! x) \<and>
      (delivered (cs' ! x) \<noteq> [] \<longrightarrow> \<not> registeredChan (spendNotifications b) x)"
    using inv len same by (auto simp: spendInv_def atMostOnce_def)
  ultimately show ?thesis by (simp add: spendInv_def)
qed

lemma chanRecv_keeps:
  "length (chanRecv cs a) = length cs \<and>
   (\<forall>x < length cs. delivered (chanRecv cs a ! x) = delivered (cs ! x) \<and>
      (closed (cs ! x) \<longrightarrow> closed (chanRecv cs a ! x)) \<and>
      (pristine (cs ! x) \<longrightarrow> chanRecv cs a ! x = cs ! x))"
  by (auto simp: chanRecv_def delivered_def pristine_def nth_list_update split: list.splits)

lemma chanClose_keeps:
  "chanClose cs a = Inr cs' \<Longrightarrow>
   length cs' = length cs \<and>
   (\<forall>x < length cs. delivered (cs' ! x) = delivered (cs ! x) \<and>
      (closed (cs ! x) \<longrightarrow> closed (cs' ! x)))"
  by (auto simp: chanClose_def delivered_def nth_list_update split: if_splits)

lemma closeSpendClients_keeps:
  "closeSpendClients clients cs = Inr cs' \<Longrightarrow>
   length cs' = length cs \<and>
   (\<forall>x < length cs. delivered (cs' ! x) = delivered (cs ! x) \<and>
      (closed (cs ! x) \<longrightarrow> closed (cs' ! x)))"
proof (induction clients arbitrary: cs)
  case Nil
  then show ?case by simp
next
  case (Cons e clients)
  obtain sid ntfn where e: "e = (sid, ntfn)" by (cases e)
  with Cons.prems obtain cs1 where
    s: "chanClose cs (spendChan ntfn) = Inr cs1" "closeSpendClients clients cs1 = Inr cs'"
    by (auto split: sum.splits)
  from chanClose_keeps [OF s(1)] Cons.IH [OF s(2)] show ?case by auto
qed

lemma closeAllSpendClients_keeps:
  "closeAllSpendClients sn cs = Inr cs' \<Longrightarrow>
   length cs' = length cs \<and>
   (\<forall>x < length cs. delivered (cs' ! x) = delivered (cs ! x) \<and>
      (closed (cs ! x) \<longrightarrow> closed (cs' ! x)))"
proof (induction sn arbitrary: cs)
  case Nil
  then show ?case by simp
next
  case (Cons e sn)
  obtain op clients where e: "e = (op, clients)" by (cases e)
  with Cons.prems obtain cs1 where
    s: "closeSpendClients clients cs = Inr cs1" "closeAllSpendClients sn cs1 = Inr cs'"
    by (auto split: sum.splits)
  from closeSpendClients_keeps [OF s(1)] Cons.IH [OF s(2)] show ?case by auto
qed

subsection \<open>Messages that do not touch the spend registry\<close>

lemma sameSpendSide_refl [simp]: "sameSpendSide b b"
  by (simp add: sameSpendSide_def)

lemma sameSpendSide_trans: "sameSpendSide b b1 \<Longrightarrow> sameSpendSide b1 b2 \<Longrightarrow> sameSpendSide b b2"
  by (simp add: sameSpendSide_def)

lemma sameSpendSide_logError [simp]: "sameSpendSide b (logError err b)"
  by (simp add: sameSpendSide_def logError_def)

lemma handleBlockConnected_frame:
  "handleBlockConnected sched ops c h hash b = Inr b' \<Longrightarrow> sameSpendSide b b'"
  by (auto simp: handleBlockConnected_def sameSpendSide_def split: sum.splits)

lemma missedBlocksLoop_frame:
  "sameSpendSide b (snd (missedBlocksLoop sched ops c newHeight height b))"
proof (induction sched ops c newHeight height b rule: missedBlocksLoop.induct)
  case (1 sched ops c newHeight height b)
  show ?case
  proof (cases "height <s newHeight")
    case False
    then show ?thesis by (subst missedBlocksLoop.simps) simp
  next
    case True
    show ?thesis
    proof (cases "GetBlockHash c (scast height)")
      case (Inl err)
      with True show ?thesis by (subst missedBlocksLoop.simps) simp
    next
      case (Inr hash)
      show ?thesis
      proof (cases "handleBlockConnected sched ops c height hash b")
        case (Inl err)
        with True Inr show ?thesis by (subst missedBlocksLoop.simps) simp
      next
        case inr: (Inr b1)
        from "1.IH" [OF True Inr inr]
        have "sameSpendSide b1 (snd (missedBlocksLoop sched ops c newHeight (height + 1) b1))" .
        with handleBlockConnected_frame [OF inr]
        have "sameSpendSide b (snd (missedBlocksLoop sched ops c newHeight (height + 1) b1))"
          by (rule sameSpendSide_trans)
        with True Inr inr show ?thesis by (subst missedBlocksLoop.simps) simp
      qed
    qed
  qed
qed

lemma catchUpOnMissedBlocks_frame:
  "catchUpOnMissedBlocks sched ops c newHeight b = Some (e, b') \<Longrightarrow> sameSpendSide b b'"
  using missedBlocksLoop_frame [of b sched ops c newHeight]
  by (auto simp: catchUpOnMissedBlocks_def split: option.splits sum.splits)
    (metis snd_conv)

lemma connectNewTip_frame: "sameSpendSide b (connectNewTip sched ops c h hash b)"
proof -
  let ?b1 = "b\<lparr>bestBlock := \<lparr>Height = h, Hash = Some hash\<rparr>\<rparr>"
  have 1: "sameSpendSide b ?b1" by (simp add: sameSpendSide_def)
  show ?thesis
  proof (cases "handleBlockConnected sched ops c h hash ?b1")
    case (Inl err)
    then show ?thesis by (simp add: connectNewTip_def sameSpendSide_def logError_def)
  next
    case (Inr b2)
    from handleBlockConnected_frame [OF Inr] 1 Inr show ?thesis
      by (simp add: connectNewTip_def sameSpendSide_def)
  qed
qed

lemma blockConnected_frame:
  "blockConnected sched ops c h hash b = Some b' \<Longrightarrow> sameSpendSide b b'"
proof -
  assume r: "blockConnected sched ops c h hash b = Some b'"
  show ?thesis
  proof (cases "h \<noteq> Height (bestBlock b) + 1")
    case False
    with r connectNewTip_frame [of b sched ops c h hash] show ?thesis
      by (auto simp: blockConnected_def)
  next
    case True
    with r obtain e b1 where
      cu: "catchUpOnMissedBlocks sched ops c h b = Some (e, b1)"
      and b': "b' = (case e of Some err \<Rightarrow> logError err b1
                      | None \<Rightarrow> connectNewTip sched ops c h hash b1)"
      by (auto simp: blockConnected_def split: option.splits)
    from catchUpOnMissedBlocks_frame [OF cu] have 1: "sameSpendSide b b1" .
    have "sameSpendSide b1 b'"
      using b' connectNewTip_frame [of b1 sched ops c h hash]
      by (cases e) simp_all
    with 1 show ?thesis by (rule sameSpendSide_trans)
  qed
qed

lemma blockDisconnected_frame: "sameSpendSide b (blockDisconnected ops c h hash b)"
  by (auto simp: blockDisconnected_def sameSpendSide_def logError_def Let_def
      split: sum.splits)

lemma registerConf_frame: "registerConf ops c msg b = Some b' \<Longrightarrow> sameSpendSide b b'"
proof -
  assume r: "registerConf ops c msg b = Some b'"
  obtain currentHeight b1 where
    g: "(case GetBestBlock c of Inl err \<Rightarrow> (0, logError err b)
          | Inr (h, height) \<Rightarrow> (height, b)) = (currentHeight, b1)"
    by (cases "(case GetBestBlock c of Inl err \<Rightarrow> (0, logError err b)
          | Inr (h, height) \<Rightarrow> (height, b))") auto
  then have 1: "sameSpendSide b b1"
    by (auto split: sum.splits prod.splits)
  from r g obtain res where
    h: "historicalConfDetails c (TxID (cnConfNtfn msg)) (cnHeightHint msg) currentHeight = Some res"
    by (auto simp: registerConf_def split: option.splits)
  obtain txConf b2 where
    t: "(case res of Inl err \<Rightarrow> (None, logError err b1) | Inr tc \<Rightarrow> (tc, b1)) = (txConf, b2)"
    by (cases "(case res of Inl err \<Rightarrow> (None, logError err b1) | Inr tc \<Rightarrow> (tc, b1))") auto
  then have 2: "sameSpendSide b1 b2" by (auto split: sum.splits)
  from r g h t have "b' = (case Register ops (txConfNotifier b2) (cnConfNtfn msg) txConf of
                   Inl err \<Rightarrow> logError err b2
                 | Inr tcn \<Rightarrow> b2\<lparr>txConfNotifier := tcn\<rparr>)"
    by (auto simp: registerConf_def split: sum.splits)
  then have 3: "sameSpendSide b2 b'"
    by (auto simp: sameSpendSide_def logError_def split: sum.splits)
  from 1 2 3 show ?thesis by (blast intro: sameSpendSide_trans)
qed

lemma catchUpClientOnBlocks_frame:
  "catchUpClientOnBlocks sched c bb b = Some (e, b') \<Longrightarrow> sameSpendSide b b'"
  by (auto simp: catchUpClientOnBlocks_def sameSpendSide_def
      split: option.splits sum.splits prod.splits)

lemma registerEpoch_frame: "registerEpoch sched c msg b = Some b' \<Longrightarrow> sameSpendSide b b'"
proof -
  assume r: "registerEpoch sched c msg b = Some b'"
  let ?b1 = "b\<lparr>blockEpochClients := AList.update (epochID msg) msg (blockEpochClients b)\<rparr>"
  from r obtain e b2 where
    cu: "catchUpClientOnBlocks sched c (regBestBlock msg) ?b1 = Some (e, b2)"
    and b': "b' = (case e of None \<Rightarrow> b2 | Some err \<Rightarrow> logError err b2)"
    by (auto simp: registerEpoch_def split: option.splits)
  from catchUpClientOnBlocks_frame [OF cu] have "sameSpendSide b b2"
    by (simp add: sameSpendSide_def)
  moreover have "sameSpendSide b2 b'" using b' by (cases e) simp_all
  ultimately show ?thesis by (rule sameSpendSide_trans)
qed

lemma spendInv_sameSpendSide: "sameSpendSide b b' \<Longrightarrow> spendInv b \<Longrightarrow> spendInv b'"
  by (simp add: sameSpendSide_def spendInv_def)

subsection \<open>The registry in every reachable state\<close>

lemma spendingHeight_spendDetailsFor:
  "SpendingHeight (spendDetailsFor tx bh j op) =
     (case Block tx of Some blk \<Rightarrow> bmHeight blk | None \<Rightarrow> bh + 1)"
  by (simp add: spendDetailsFor_def)

lemma handleRelevantTx_keeps_spendInv:
  assumes inv: "spendInv b" and nq: "\<not> quit b"
    and r: "handleRelevantTx tx bh b = Inr b'"
  shows "spendInv b'"
proof -
  from spendOK_of_spendInv [OF inv nq]
  have ok: "spendOK (spendNotifications b) (chans b)" .
  from relevantTxLoop_spendOK [OF spendingHeight_spendDetailsFor ok,
      of tx bh 0 "TxIn (trMsgTx (rtTxRecord tx))"]
  obtain sn' cs' where
    l: "relevantTxLoop tx bh 0 (TxIn (trMsgTx (rtTxRecord tx)))
          (spendNotifications b) (chans b) = Inr (sn', cs')"
    and ok': "spendOK sn' cs'"
    by blast
  from r l have "b' = b\<lparr>spendNotifications := sn', chans := cs'\<rparr>"
    by (simp add: handleRelevantTx_def)
  with ok' show ?thesis by (simp add: spendInv_of_spendOK)
qed

lemma handleCancelMsg_keeps_spendInv:
  assumes inv: "spendInv b" and nq: "\<not> quit b"
    and r: "handleCancelMsg cancel b = Inr b'"
  shows "spendInv b'"
proof (cases cancel)
  case (EpochCancel eid)
  with r have "sameSpendSide b b'"
    by (auto simp: handleCancelMsg_def sameSpendSide_def split: option.splits if_splits)
  then show ?thesis using inv by (rule spendInv_sameSpendSide)
next
  case (SpendCancel op sid)
  show ?thesis
  proof (cases "map_of (spendNotifications b) op")
    case None
    with r SpendCancel have "b' = b" by (simp add: handleCancelMsg_def)
    with inv show ?thesis by simp
  next
    case (Some cl)
    with r SpendCancel obtain ntfn cs' where
      n: "map_of cl sid = Some ntfn" "chanClose (chans b) (spendChan ntfn) = Inr cs'"
      and b': "b' = b\<lparr>chans := cs',
                 spendNotifications := AList.update op (AList.delete sid cl) (spendNotifications b)\<rparr>"
      by (auto simp: handleCancelMsg_def split: option.splits sum.splits)
    from cancel_keeps_spendOK [OF spendOK_of_spendInv [OF inv nq] Some n(1)] n(2)
    have "spendOK (AList.update op (AList.delete sid cl) (spendNotifications b)) cs'"
      by auto
    with b' show ?thesis by (simp add: spendInv_of_spendOK)
  qed
qed

lemma alloc_keeps_spendInv:
  assumes inv: "spendInv b"
  shows "spendInv (b\<lparr>spendClientCounter := n, chans := chans b @ [makeChan]\<rparr>)"
proof -
  have "spendInv (b\<lparr>chans := chans b @ [makeChan]\<rparr>)"
    unfolding spendInv_def
  proof (intro conjI allI impI)
    fix a assume "a < length (chans (b\<lparr>chans := chans b @ [makeChan]\<rparr>))"
    then have a: "a < length (chans b) \<or> a = length (chans b)" by auto
    with inv show "atMostOnce (chans (b\<lparr>chans := chans b @ [makeChan]\<rparr>) ! a)"
      by (auto simp: spendInv_def nth_append atMostOnce_def delivered_def makeChan_def)
    assume "delivered (chans (b\<lparr>chans := chans b @ [makeChan]\<rparr>) ! a) \<noteq> []"
    with a inv
    show "\<not> registeredChan (spendNotifications (b\<lparr>chans := chans b @ [makeChan]\<rparr>)) a"
      by (auto simp: spendInv_def nth_append delivered_def makeChan_def)
  next
    assume "\<not> quit (b\<lparr>chans := chans b @ [makeChan]\<rparr>)"
    with inv have p: "pendingOK (spendNotifications b) (chans b)" by (simp add: spendInv_def)
    have "pendingOK (spendNotifications b) (chans b @ [makeChan])"
      unfolding pendingOK_def
    proof (intro conjI allI impI ballI)
      fix op cl assume l: "map_of (spendNotifications b) op = Some cl"
      with p show "distinct (map (\<lambda>e. spendChan (snd e)) cl)"
        unfolding pendingOK_def by blast
      fix x assume "x \<in> chanSet cl"
      with p l have "x < length (chans b) \<and> pristine (chans b ! x)"
        unfolding pendingOK_def by blast
      then show "x < length (chans b @ [makeChan])" "pristine ((chans b @ [makeChan]) ! x)"
        by (simp_all add: nth_append)
    next
      fix op op' cl cl'
      assume "map_of (spendNotifications b) op = Some cl"
        "map_of (spendNotifications b) op' = Some cl'" "op \<noteq> op'"
      with p show "chanSet cl \<inter> chanSet cl' = {}" unfolding pendingOK_def by blast
    qed
    then show "pendingOK (spendNotifications (b\<lparr>chans := chans b @ [makeChan]\<rparr>))
                 (chans (b\<lparr>chans := chans b @ [makeChan]\<rparr>))"
      by simp
  qed
  then show ?thesis by (simp add: spendInv_def)
qed

lemma Stop_keeps_spendInv:
  assumes inv: "spendInv b" and r: "Stop ops b = Inr b'"
  shows "spendInv b'"
proof (cases "stopped b + 1 \<noteq> 1")
  case True
  with r have "sameSpendSide b b'" by (auto simp: Stop_def sameSpendSide_def Let_def)
  then show ?thesis using inv by (rule spendInv_sameSpendSide)
next
  case False
  with r obtain cs clients where
    cl: "closeAllSpendClients (spendNotifications b) (chans b) = Inr cs"
    and b': "b' = b\<lparr>stopped := stopped b + 1, quit := True, dispatcherRunning := False,
                   chans := cs, blockEpochClients := clients,
                   txConfNotifier := TearDown ops (txConfNotifier b)\<rparr>"
    by (auto simp: Stop_def Let_def split: if_splits sum.splits)
  from closeAllSpendClients_keeps [OF cl]
  have k: "length cs = length (chans b)"
    "\<forall>x < length (chans b). delivered (cs ! x) = delivered (chans b ! x) \<and>
        (closed (chans b ! x) \<longrightarrow> closed (cs ! x)) \<and>
        (pristine (chans b ! x) \<longrightarrow> True \<or> cs ! x = chans b ! x)"
    by auto
  from spendInv_store_change [OF inv k, of True] have "spendInv (b\<lparr>chans := cs, quit := True\<rparr>)"
    by simp
  then show ?thesis by (simp add: b' spendInv_def)
qed

lemma reachable_spendInv: "reachable ops b \<Longrightarrow> spendInv b"
proof (induction rule: reachable.induct)
  case (created unset)
  show ?case by (simp add: spendInv_def New_def pendingOK_def)
next
  case (started b c err b')
  from started.hyps(2) have "sameSpendSide b b'"
    by (auto simp: Start_def sameSpendSide_def Let_def
        split: if_splits option.splits sum.splits prod.splits)
  with started.IH show ?case by (rule spendInv_sameSpendSide [rotated])
next
  case (unsafeStarted b c best err b')
  from unsafeStarted.hyps(2) have "sameSpendSide b b'"
    by (auto simp: UnsafeStart_def sameSpendSide_def split: option.splits)
  with unsafeStarted.IH show ?case by (rule spendInv_sameSpendSide [rotated])
next
  case (dispatched b ev sched c b')
  note inv = dispatched.IH and nq = \<open>\<not> quit b\<close>
    and r = \<open>notificationDispatcher sched ops c ev b = Some (Inr b')\<close>
  show ?case
  proof (cases ev)
    case (CancelMsg cancel)
    with r have "handleCancelMsg cancel b = Inr b'" by (simp add: notificationDispatcher_def)
    with inv nq show ?thesis by (rule handleCancelMsg_keeps_spendInv)
  next
    case (RegisterMsg msg)
    with r have h: "handleRegisterMsg sched ops c msg b = Some (Inr b')"
      by (simp add: notificationDispatcher_def)
    show ?thesis
    proof (cases msg)
      case (RegSpend m)
      with RegisterMsg dispatched.hyps show ?thesis by blast
    next
      case (RegConf m)
      with h have "registerConf ops c m b = Some b'" by (auto simp: handleRegisterMsg_def)
      from registerConf_frame [OF this] inv show ?thesis by (rule spendInv_sameSpendSide)
    next
      case (RegEpoch m)
      with h have "registerEpoch sched c m b = Some b'" by (auto simp: handleRegisterMsg_def)
      from registerEpoch_frame [OF this] inv show ?thesis by (rule spendInv_sameSpendSide)
    next
      case (RegRelevantTx tx)
      with h have "handleRelevantTx tx (Height (bestBlock b)) b = Inr b'"
        by (simp add: handleRegisterMsg_def)
      with inv nq show ?thesis by (rule handleRelevantTx_keeps_spendInv)
    qed
  next
    case (ChainNtfn ntfn)
    with r have h: "handleChainNtfn sched ops c ntfn b = Some (Inr b')"
      by (simp add: notificationDispatcher_def)
    show ?thesis
    proof (cases ntfn)
      case (BlockConnected height hash)
      with h have "blockConnected sched ops c height hash b = Some b'"
        by (auto simp: handleChainNtfn_def)
      from blockConnected_frame [OF this] inv show ?thesis by (rule spendInv_sameSpendSide)
    next
      case (BlockDisconnected height hash)
      with h have "b' = blockDisconnected ops c height hash b"
        by (simp add: handleChainNtfn_def)
      with blockDisconnected_frame [of b ops c height hash] inv show ?thesis
        by (simp add: spendInv_sameSpendSide)
    next
      case (ChainRelevantTx tx)
      with h have "handleRelevantTx tx (Height (bestBlock b)) b = Inr b'"
        by (simp add: handleChainNtfn_def)
      with inv nq show ?thesis by (rule handleRelevantTx_keeps_spendInv)
    qed
  qed
next
  case (spendRegistered b ntfn sched c b')
  note inv = spendRegistered.IH and nq = \<open>\<not> quit b\<close>
  from \<open>notificationDispatcher sched ops c (RegisterMsg (RegSpend ntfn)) b = Some (Inr b')\<close>
  have b': "b' = registerSpend c ntfn b"
    by (simp add: notificationDispatcher_def handleRegisterMsg_def)
  from register_keeps_spendOK [OF spendOK_of_spendInv [OF inv nq]
      \<open>spendChan ntfn < length (chans b)\<close> \<open>pristine (chans b ! spendChan ntfn)\<close>
      \<open>\<not> registeredChan (spendNotifications b) (spendChan ntfn)\<close>,
      of "targetOutpoint ntfn" "spendID ntfn"]
  have "spendOK (spendNotifications b') (chans b')"
    using b' by (simp add: registerSpend_def Let_def)
  then show ?case by (rule spendInv_of_spendOK)
next
  case (spendAllocated b outpoint ntfn b')
  from \<open>newSpendNotification outpoint b = (ntfn, b')\<close>
  have "b' = b\<lparr>spendClientCounter := spendClientCounter b + 1, chans := chans b @ [makeChan]\<rparr>"
    by (simp add: newSpendNotification_def)
  with alloc_keeps_spendInv [OF spendAllocated.IH] show ?case by simp
next
  case (epochAllocated b clientBest choice res b')
  from epochAllocated.hyps(2) have "sameSpendSide b b'"
    by (auto simp: RegisterBlockEpochNtfn_def sameSpendSide_def Let_def
        split: option.splits selected.splits)
  with epochAllocated.IH show ?case by (rule spendInv_sameSpendSide [rotated])
next
  case (received b a)
  from chanRecv_keeps [of "chans b" a]
  have k: "length (chanRecv (chans b) a) = length (chans b)"
    "\<forall>x < length (chans b).
        delivered (chanRecv (chans b) a ! x) = delivered (chans b ! x) \<and>
        (closed (chans b ! x) \<longrightarrow> closed (chanRecv (chans b) a ! x)) \<and>
        (pristine (chans b ! x) \<longrightarrow> False \<or> chanRecv (chans b) a ! x = chans b ! x)"
    by auto
  from spendInv_store_change [OF received.IH k, of "quit b"]
  show ?case by (simp add: spendInv_def)
next
  case (stopped b b')
  from stopped.IH stopped.hyps(2) show ?case by (rule Stop_keeps_spendInv)
qed

section \<open>Spend notifications: what a subscriber receives\<close>

text \<open>
  C6. In every reachable state in which the dispatcher runs, a \<open>RelevantTx\<close> that
  arrives from the backend or through the registration channel is dispatched
  without fault, and each client of each registered outpoint that one of its inputs
  spends is sent one \<open>SpendDetail\<close> whose \<open>SpendingHeight\<close> is the height of the
  containing block when the transaction carries one, and the notifier's best height
  plus one (in \<open>int32\<close> arithmetic) when it carries none. No other detail is sent:
  every channel either is as it was or holds exactly such a detail.
\<close>

theorem C6_spending_height:
  assumes r: "reachable ops b" and run: "dispatcherRunning b" and nq: "\<not> quit b"
    and ev: "ev = ChainNtfn (ChainRelevantTx tx) \<or> ev = RegisterMsg (RegRelevantTx tx)"
  shows "\<exists>b'. notificationDispatcher sched ops c ev b = Some (Inr b') \<and>
     (\<forall>op \<in> set (TxIn (trMsgTx (rtTxRecord tx))). \<forall>clients.
        map_of (spendNotifications b) op = Some clients \<longrightarrow>
        (\<forall>a \<in> chanSet clients.
           \<exists>d. chans b' ! a = \<lparr>buf = [d], closed = True, recvd = []\<rparr> \<and>
               SpendingHeight d =
                 (case Block tx of Some blk \<Rightarrow> bmHeight blk
                  | None \<Rightarrow> Height (bestBlock b) + 1))) \<and>
     (\<forall>a < length (chans b). chans b' ! a = chans b ! a \<or>
        (\<exists>d. chans b' ! a = \<lparr>buf = [d], closed = True, recvd = []\<rparr> \<and>
             SpendingHeight d =
               (case Block tx of Some blk \<Rightarrow> bmHeight blk
                | None \<Rightarrow> Height (bestBlock b) + 1)))"
proof -
  let ?bh = "Height (bestBlock b)"
  from ev have d: "notificationDispatcher sched ops c ev b = Some (handleRelevantTx tx ?bh b)"
    by (auto simp: notificationDispatcher_def handleChainNtfn_def handleRegisterMsg_def)
  from spendOK_of_spendInv [OF reachable_spendInv [OF r] nq]
  have ok: "spendOK (spendNotifications b) (chans b)" .
  from relevantTxLoop_spendOK [OF spendingHeight_spendDetailsFor ok,
      of tx ?bh 0 "TxIn (trMsgTx (rtTxRecord tx))"]
  obtain sn' cs' where
    l: "relevantTxLoop tx ?bh 0 (TxIn (trMsgTx (rtTxRecord tx)))
          (spendNotifications b) (chans b) = Inr (sn', cs')"
    and hit: "\<forall>op \<in> set (TxIn (trMsgTx (rtTxRecord tx))). \<forall>clients.
        map_of (spendNotifications b) op = Some clients \<longrightarrow>
        (\<forall>a \<in> chanSet clients.
           \<exists>d. cs' ! a = \<lparr>buf = [d], closed = True, recvd = []\<rparr> \<and>
               SpendingHeight d =
                 (case Block tx of Some blk \<Rightarrow> bmHeight blk | None \<Rightarrow> ?bh + 1))"
    and all: "\<forall>a < length (chans b). cs' ! a = chans b ! a \<or>
        (\<exists>d. cs' ! a = \<lparr>buf = [d], closed = True, recvd = []\<rparr> \<and>
             SpendingHeight d =
               (case Block tx of Some blk \<Rightarrow> bmHeight blk | None \<Rightarrow> ?bh + 1))"
    by blast
  from l have "handleRelevantTx tx ?bh b = Inr (b\<lparr>spendNotifications := sn', chans := cs'\<rparr>)"
    by (simp add: handleRelevantTx_def)
  with d hit all show ?thesis by simp
qed

theorem C6_spending_height_witness:
  "reachable heightOnlyTxConfNotifier oneSpendClient \<and> dispatcherRunning oneSpendClient \<and>
   \<not> quit oneSpendClient \<and>
   (\<exists>b' d. notificationDispatcher takeSend heightOnlyTxConfNotifier noBackend
              (ChainNtfn (ChainRelevantTx mempoolSpend)) oneSpendClient = Some (Inr b') \<and>
           chans b' ! 0 = \<lparr>buf = [d], closed = True, recvd = []\<rparr> \<and>
           SpendingHeight d = 101)"
proof -
  from C6_spending_height [OF reachable_oneSpendClient oneSpendClient_running,
      of "ChainNtfn (ChainRelevantTx mempoolSpend)" mempoolSpend takeSend noBackend]
  obtain b' where
    d: "notificationDispatcher takeSend heightOnlyTxConfNotifier noBackend
          (ChainNtfn (ChainRelevantTx mempoolSpend)) oneSpendClient = Some (Inr b')"
    and hit: "\<forall>op \<in> set (TxIn (trMsgTx (rtTxRecord mempoolSpend))). \<forall>clients.
        map_of (spendNotifications oneSpendClient) op = Some clients \<longrightarrow>
        (\<forall>a \<in> chanSet clients.
           \<exists>d. chans b' ! a = \<lparr>buf = [d], closed = True, recvd = []\<rparr> \<and>
               SpendingHeight d =
                 (case Block mempoolSpend of Some blk \<Rightarrow> bmHeight blk
                  | None \<Rightarrow> Height (bestBlock oneSpendClient) + 1))"
    by blast
  have h: "Height (bestBlock oneSpendClient) = 100"
    by (simp add: oneSpendClient_eq bitcoindAt100_fields block100_def)
  from hit have "\<exists>d. chans b' ! 0 = \<lparr>buf = [d], closed = True, recvd = []\<rparr> \<and>
               SpendingHeight d = 101"
    unfolding h by (simp add: mempoolSpend_def oneSpendClient_eq chanSet_def)
  with d reachable_oneSpendClient oneSpendClient_running show ?thesis by blast
qed


text \<open>
  C5. In every reachable state, on every spend channel at most one \<open>SpendDetail\<close>
  has ever been sent, and a channel on which one was sent is closed and is no longer
  in the registry. Moreover, while the dispatcher runs, dispatching any relevant
  transaction ends without fault in a reachable state in which the entry of every
  outpoint that the transaction spends is gone from the registry and each channel
  of the clients that entry had holds exactly one value and is closed: the value,
  the close and the removal happen in one dispatch step, so no later transaction
  can reach those clients.
\<close>

theorem C5_spend_at_most_once:
  assumes r: "reachable ops b"
  shows "(\<forall>a < length (chans b).
            length (delivered (chans b ! a)) \<le> 1 \<and>
            (delivered (chans b ! a) \<noteq> [] \<longrightarrow>
               closed (chans b ! a) \<and> \<not> registeredChan (spendNotifications b) a)) \<and>
         (dispatcherRunning b \<and> \<not> quit b \<longrightarrow>
            (\<forall>tx. \<exists>b'. handleRelevantTx tx (Height (bestBlock b)) b = Inr b' \<and>
               reachable ops b' \<and>
               (\<forall>op \<in> set (TxIn (trMsgTx (rtTxRecord tx))).
                  map_of (spendNotifications b') op = None \<and>
                  (\<forall>clients. map_of (spendNotifications b) op = Some clients \<longrightarrow>
                     (\<forall>a \<in> chanSet clients.
                        length (delivered (chans b' ! a)) = 1 \<and> closed (chans b' ! a))))))"
proof -
  have part1: "\<forall>a < length (chans b).
            length (delivered (chans b ! a)) \<le> 1 \<and>
            (delivered (chans b ! a) \<noteq> [] \<longrightarrow>
               closed (chans b ! a) \<and> \<not> registeredChan (spendNotifications b) a)"
    using reachable_spendInv [OF r] by (simp add: spendInv_def atMostOnce_def)
  have part2: "\<exists>b'. handleRelevantTx tx (Height (bestBlock b)) b = Inr b' \<and>
      reachable ops b' \<and>
      (\<forall>op \<in> set (TxIn (trMsgTx (rtTxRecord tx))).
          map_of (spendNotifications b') op = None \<and>
          (\<forall>clients. map_of (spendNotifications b) op = Some clients \<longrightarrow>
             (\<forall>a \<in> chanSet clients.
                length (delivered (chans b' ! a)) = 1 \<and> closed (chans b' ! a))))"
    if run: "dispatcherRunning b \<and> \<not> quit b" for tx
  proof -
  let ?bh = "Height (bestBlock b)"
  let ?ins = "TxIn (trMsgTx (rtTxRecord tx))"
  from run spendOK_of_spendInv [OF reachable_spendInv [OF r]]
  have ok: "spendOK (spendNotifications b) (chans b)" by simp
  from relevantTxLoop_spendOK [OF spendingHeight_spendDetailsFor ok, of tx ?bh 0 ?ins]
  obtain sn' cs' where
    l: "relevantTxLoop tx ?bh 0 ?ins (spendNotifications b) (chans b) = Inr (sn', cs')"
    and gone: "\<forall>op. map_of sn' op = (if op \<in> set ?ins then None
                 else map_of (spendNotifications b) op)"
    and hit: "\<forall>op \<in> set ?ins. \<forall>clients.
        map_of (spendNotifications b) op = Some clients \<longrightarrow>
        (\<forall>a \<in> chanSet clients. \<exists>d. cs' ! a = \<lparr>buf = [d], closed = True, recvd = []\<rparr> \<and>
            SpendingHeight d =
              (case Block tx of Some blk \<Rightarrow> bmHeight blk | None \<Rightarrow> ?bh + 1))"
    by blast
  let ?b' = "b\<lparr>spendNotifications := sn', chans := cs'\<rparr>"
  from l have h: "handleRelevantTx tx ?bh b = Inr ?b'"
    by (simp add: handleRelevantTx_def)
  then have "notificationDispatcher takeSend ops undefined (ChainNtfn (ChainRelevantTx tx)) b
               = Some (Inr ?b')"
    by (simp add: notificationDispatcher_def handleChainNtfn_def)
  with r run have r': "reachable ops ?b'"
    by (intro reachable.dispatched [of ops b "ChainNtfn (ChainRelevantTx tx)" takeSend undefined ?b'])
       simp_all
  have "\<forall>op \<in> set ?ins.
          map_of (spendNotifications ?b') op = None \<and>
          (\<forall>clients. map_of (spendNotifications b) op = Some clients \<longrightarrow>
             (\<forall>a \<in> chanSet clients.
                length (delivered (chans ?b' ! a)) = 1 \<and> closed (chans ?b' ! a)))"
  proof (intro ballI conjI allI impI)
    fix op assume op: "op \<in> set ?ins"
    with gone show "map_of (spendNotifications ?b') op = None" by simp
    fix clients a
    assume "map_of (spendNotifications b) op = Some clients" "a \<in> chanSet clients"
    with hit op obtain d where "cs' ! a = \<lparr>buf = [d], closed = True, recvd = []\<rparr>"
      by blast
    then show "length (delivered (chans ?b' ! a)) = 1" "closed (chans ?b' ! a)"
      by (simp_all add: delivered_def)
  qed
  with h r' show ?thesis by blast
  qed
  from part1 part2 show ?thesis by blast
qed

theorem C5_spend_at_most_once_witness:
  "reachable heightOnlyTxConfNotifier oneSpendClient \<and>
   length (delivered (chans oneSpendClient ! 0)) \<le> 1 \<and>
   (\<exists>b'. handleRelevantTx mempoolSpend 100 oneSpendClient = Inr b' \<and>
         reachable heightOnlyTxConfNotifier b' \<and>
         map_of (spendNotifications b') exampleOutPoint = None \<and>
         length (delivered (chans b' ! 0)) = 1 \<and> closed (chans b' ! 0))"
proof -
  note c5 = C5_spend_at_most_once [OF reachable_oneSpendClient]
  have len: "0 < length (chans oneSpendClient)"
    by (simp add: oneSpendClient_eq)
  with c5 have 1: "length (delivered (chans oneSpendClient ! 0)) \<le> 1" by blast
  have h: "Height (bestBlock oneSpendClient) = 100"
    by (simp add: oneSpendClient_eq bitcoindAt100_fields block100_def)
  from c5 oneSpendClient_running
  obtain b' where
    b: "handleRelevantTx mempoolSpend (Height (bestBlock oneSpendClient)) oneSpendClient = Inr b'"
       "reachable heightOnlyTxConfNotifier b'"
    and e: "\<forall>op \<in> set (TxIn (trMsgTx (rtTxRecord mempoolSpend))).
               map_of (spendNotifications b') op = None \<and>
               (\<forall>clients. map_of (spendNotifications oneSpendClient) op = Some clients \<longrightarrow>
                  (\<forall>a \<in> chanSet clients.
                     length (delivered (chans b' ! a)) = 1 \<and> closed (chans b' ! a)))"
    by blast
  from e have "map_of (spendNotifications b') exampleOutPoint = None \<and>
         length (delivered (chans b' ! 0)) = 1 \<and> closed (chans b' ! 0)"
    by (simp add: mempoolSpend_def oneSpendClient_eq chanSet_def)
  with b h 1 reachable_oneSpendClient show ?thesis by auto
qed

section \<open>Cancellation\<close>

text \<open>
  C7 (the code departs from the claim). A spend client cancels: the channel is
  closed and the client is deleted, but the emptied inner map of its outpoint stays
  in the registry. The same cancellation once more finds the outpoint, reads a nil
  client and faults on its field. An epoch cancellation for an id that is not
  registered faults the same way, with no check at all.
\<close>

theorem C7_cancel_of_unregistered_id_faults:
  "handleCancelMsg (SpendCancel exampleOutPoint 1) oneSpendClient
     = Inr oneSpendClientCancelled \<and>
   handleCancelMsg (SpendCancel exampleOutPoint 1) oneSpendClientCancelled
     = Inl (Panic ''nil pointer dereference'') \<and>
   handleCancelMsg (EpochCancel 1) bitcoindAt100 = Inl (Panic ''nil pointer dereference'')"
proof (intro conjI)
  show "handleCancelMsg (SpendCancel exampleOutPoint 1) oneSpendClient
          = Inr oneSpendClientCancelled"
    by (simp add: oneSpendClientCancelled_def oneSpendClient_eq handleCancelMsg_def
        chanClose_def makeChan_def)
  show "handleCancelMsg (SpendCancel exampleOutPoint 1) oneSpendClientCancelled
          = Inl (Panic ''nil pointer dereference'')"
    by (simp add: oneSpendClientCancelled_def handleCancelMsg_def)
  show "handleCancelMsg (EpochCancel 1) bitcoindAt100 = Inl (Panic ''nil pointer dereference'')"
    by (simp add: handleCancelMsg_def bitcoindAt100_def UnsafeStart_def noBackend_def New_def)
qed

text \<open>
  The part of the claim that the code keeps: a spend cancellation for an outpoint
  that has no entry (never registered, or already dispatched, which deletes the
  entry) leaves the notifier as it is.
\<close>

lemma spend_cancel_without_entry_is_noop:
  "map_of (spendNotifications b) op = None \<Longrightarrow>
   handleCancelMsg (SpendCancel op sid) b = Inr b"
  by (simp add: handleCancelMsg_def)

section \<open>Client catch-up\<close>

lemma sint_succ32:
  fixes h :: int32
  assumes "sint h < 2 ^ 31 - 1"
  shows "sint (h + 1) = sint h + 1"
proof -
  have lo: "- (2 ^ 31) \<le> sint h" using sint_ge [of h] by simp
  have "sint (h + 1) = signed_take_bit 31 (sint h + 1)"
    by (simp add: sint_word_ariths)
  also have "\<dots> = sint h + 1"
    using assms lo by (simp add: signed_take_bit_int_eq_self)
  finally show ?thesis .
qed

lemma int32Range_rec:
  "i \<le> j \<Longrightarrow> int32Range i j = word_of_int i # int32Range (i + 1) j"
  by (simp add: int32Range_def upto_rec1)

lemma int32Range_empty: "j < i \<Longrightarrow> int32Range i j = []"
  by (simp add: int32Range_def)

lemma length_int32Range: "length (int32Range i j) = nat (j - i + 1)"
  by (simp add: int32Range_def)

lemma set_int32Range:
  fixes h :: int32
  shows "h \<in> set (int32Range i j) \<Longrightarrow> \<exists>k. i \<le> k \<and> k \<le> j \<and> h = word_of_int k"
  by (auto simp: int32Range_def)

lemma notifyBlockEpochs_subscriber:
  assumes "\<not> quitClosed" and "map_of clients eid = Some cl" and "\<not> cancelChanClosed cl"
  shows "map_of (notifyBlockEpochs sched quitClosed h hash clients) eid =
     Some (cl\<lparr>epochQueue := epochQueue cl @ [\<lparr>Height = h, Hash = Some hash\<rparr>]\<rparr>)"
  using assms
  by (induction clients)
     (auto simp: notifyBlockEpochs_def selectEpochCase_def Let_def split: epochCase.splits)

lemma clientCatchUpLoop_all:
  fixes height bestHeight :: int32
  assumes top: "sint bestHeight < 2 ^ 31 - 1" and run: "\<not> quitClosed"
  shows "n = nat (sint bestHeight - sint height + 1) \<Longrightarrow>
    (\<forall>h \<in> set (int32Range (sint height) (sint bestHeight)).
        GetBlockHash c (scast h) = Inr (hs h)) \<Longrightarrow>
    map_of clients eid = Some cl \<Longrightarrow> \<not> cancelChanClosed cl \<Longrightarrow>
    \<exists>clients'. clientCatchUpLoop sched c quitClosed bestHeight height clients
                  = Some (None, clients') \<and>
       map_of clients' eid =
         Some (cl\<lparr>epochQueue := epochQueue cl @
                 epochsOf hs (int32Range (sint height) (sint bestHeight))\<rparr>)"
proof (induction n arbitrary: height clients cl)
  case 0
  then have "\<not> height \<le>s bestHeight" by (simp add: word_sle_eq)
  moreover from 0 have "int32Range (sint height) (sint bestHeight) = []"
    by (intro int32Range_empty) simp
  ultimately show ?case using 0(3)
    by (subst clientCatchUpLoop.simps) (simp add: epochsOf_def)
next
  case (Suc n)
  let ?next = "notifyBlockEpochs sched quitClosed height (hs height) clients"
  let ?cl = "cl\<lparr>epochQueue := epochQueue cl @ [\<lparr>Height = height, Hash = Some (hs height)\<rparr>]\<rparr>"
  from Suc.prems(1) have le: "sint height \<le> sint bestHeight" by simp
  then have les: "height \<le>s bestHeight" by (simp add: word_sle_eq)
  from le top have "sint height < 2 ^ 31 - 1" by simp
  then have succ: "sint (height + 1) = sint height + 1" by (rule sint_succ32)
  have rng: "int32Range (sint height) (sint bestHeight)
               = height # int32Range (sint (height + 1)) (sint bestHeight)"
    using int32Range_rec [OF le] succ by simp
  with Suc.prems(2) have here: "GetBlockHash c (scast height) = Inr (hs height)"
    and rest: "\<forall>h \<in> set (int32Range (sint (height + 1)) (sint bestHeight)).
        GetBlockHash c (scast h) = Inr (hs h)"
    by simp_all
  from Suc.prems(1) succ have n: "n = nat (sint bestHeight - sint (height + 1) + 1)" by simp
  from notifyBlockEpochs_subscriber [OF run Suc.prems(3) Suc.prems(4)]
  have look: "map_of ?next eid = Some ?cl" .
  have live: "\<not> cancelChanClosed ?cl" using Suc.prems(4) by simp
  from Suc.IH [OF n rest look live] obtain clients' where
    loop: "clientCatchUpLoop sched c quitClosed bestHeight (height + 1) ?next
             = Some (None, clients')"
    and sub: "map_of clients' eid =
         Some (?cl\<lparr>epochQueue := epochQueue ?cl @
                 epochsOf hs (int32Range (sint (height + 1)) (sint bestHeight))\<rparr>)"
    by blast
  from les here loop
  have "clientCatchUpLoop sched c quitClosed bestHeight height clients = Some (None, clients')"
    by (subst clientCatchUpLoop.simps) simp
  moreover from sub rng have "map_of clients' eid =
         Some (cl\<lparr>epochQueue := epochQueue cl @
                 epochsOf hs (int32Range (sint height) (sint bestHeight))\<rparr>)"
    by (simp add: epochsOf_def)
  ultimately show ?case by blast
qed

lemma catchUpStartingHeight_of_ancestor:
  assumes h0: "GetBlockHash c (scast (Height B)) = Inr h0"
    and anc: "((Hash B = None \<or> Hash B = Some h0) \<and> ca = Height B) \<or>
         (\<exists>hb n x. Hash B = Some hb \<and> hb \<noteq> h0 \<and> lockstepWalk c n hb h0 = Some x \<and>
               heightOfCommon c x = Inr ca)"
  shows "catchUpStartingHeight c B = Some (Inr (ca + 1))"
proof -
  from anc consider
      (level) "(Hash B = None \<or> Hash B = Some h0) \<and> ca = Height B"
    | (fork) hb n x where "Hash B = Some hb" "hb \<noteq> h0" "lockstepWalk c n hb h0 = Some x"
        "heightOfCommon c x = Inr ca"
    by blast
  then show ?thesis
  proof cases
    case level
    with h0 show ?thesis by (auto simp: catchUpStartingHeight_def)
  next
    case fork
    from walker_of_lockstepWalk [OF fork(3)] fork(4)
    have "getCommonBlockAncestorHeight c hb h0 = Some (Inr ca)" by simp
    with h0 fork(1,2) show ?thesis by (simp add: catchUpStartingHeight_def)
  qed
qed

lemma clientCatchUpLoop_stops:
  fixes height k bestHeight :: int32
  assumes kb: "sint k \<le> sint bestHeight" and fail: "GetBlockHash c (scast k) = Inl e"
    and run: "\<not> quitClosed"
  shows "n = nat (sint k - sint height) \<Longrightarrow> sint height \<le> sint k \<Longrightarrow>
    (\<forall>h \<in> set (int32Range (sint height) (sint k - 1)).
        GetBlockHash c (scast h) = Inr (hs h)) \<Longrightarrow>
    map_of clients eid = Some cl \<Longrightarrow> \<not> cancelChanClosed cl \<Longrightarrow>
    \<exists>clients'. clientCatchUpLoop sched c quitClosed bestHeight height clients
                  = Some (Some (Errorf ''unable to find blockhash for height'' e), clients') \<and>
       map_of clients' eid =
         Some (cl\<lparr>epochQueue := epochQueue cl @
                 epochsOf hs (int32Range (sint height) (sint k - 1))\<rparr>)"
proof (induction n arbitrary: height clients cl)
  case 0
  then have "sint height = sint k" by simp
  then have eq: "height = k" by (rule signed_word_eqI)
  have "int32Range (sint height) (sint k - 1) = []"
    using eq by (intro int32Range_empty) simp
  moreover from kb eq have "height \<le>s bestHeight" by (simp add: word_sle_eq)
  ultimately show ?case using fail eq 0(4)
    by (subst clientCatchUpLoop.simps) (simp add: epochsOf_def)
next
  case (Suc n)
  let ?next = "notifyBlockEpochs sched quitClosed height (hs height) clients"
  let ?cl = "cl\<lparr>epochQueue := epochQueue cl @ [\<lparr>Height = height, Hash = Some (hs height)\<rparr>]\<rparr>"
  from Suc.prems(1) have lt: "sint height < sint k" by simp
  with kb have les: "height \<le>s bestHeight" by (simp add: word_sle_eq)
  have "sint k < 2 ^ 31" using sint_lt [of k] by simp
  with lt have "sint height < 2 ^ 31 - 1" by simp
  then have succ: "sint (height + 1) = sint height + 1" by (rule sint_succ32)
  have rng: "int32Range (sint height) (sint k - 1)
               = height # int32Range (sint (height + 1)) (sint k - 1)"
    using int32Range_rec [of "sint height" "sint k - 1"] lt succ by simp
  with Suc.prems(3) have here: "GetBlockHash c (scast height) = Inr (hs height)"
    and rest: "\<forall>h \<in> set (int32Range (sint (height + 1)) (sint k - 1)).
        GetBlockHash c (scast h) = Inr (hs h)"
    by simp_all
  from Suc.prems(1) succ have n: "n = nat (sint k - sint (height + 1))" by simp
  from lt succ have le': "sint (height + 1) \<le> sint k" by simp
  from notifyBlockEpochs_subscriber [OF run Suc.prems(4) Suc.prems(5)]
  have look: "map_of ?next eid = Some ?cl" .
  have live: "\<not> cancelChanClosed ?cl" using Suc.prems(5) by simp
  from Suc.IH [OF n le' rest look live] obtain clients' where
    loop: "clientCatchUpLoop sched c quitClosed bestHeight (height + 1) ?next
             = Some (Some (Errorf ''unable to find blockhash for height'' e), clients')"
    and sub: "map_of clients' eid =
         Some (?cl\<lparr>epochQueue := epochQueue ?cl @
                 epochsOf hs (int32Range (sint (height + 1)) (sint k - 1))\<rparr>)"
    by blast
  from les here loop
  have "clientCatchUpLoop sched c quitClosed bestHeight height clients
          = Some (Some (Errorf ''unable to find blockhash for height'' e), clients')"
    by (subst clientCatchUpLoop.simps) simp
  moreover from sub rng have "map_of clients' eid =
         Some (cl\<lparr>epochQueue := epochQueue cl @
                 epochsOf hs (int32Range (sint height) (sint k - 1))\<rparr>)"
    by (simp add: epochsOf_def)
  ultimately show ?case by blast
qed

lemma registerEpoch_all:
  assumes run: "\<not> quit b" and live: "\<not> cancelChanClosed msg"
    and best: "regBestBlock msg = Some B"
    and h0: "GetBlockHash c (scast (Height B)) = Inr h0"
    and anc: "((Hash B = None \<or> Hash B = Some h0) \<and> ca = Height B) \<or>
      (\<exists>hb n x. Hash B = Some hb \<and> hb \<noteq> h0 \<and> lockstepWalk c n hb h0 = Some x \<and>
            heightOfCommon c x = Inr ca)"
    and ca: "sint ca < 2 ^ 31 - 1" and top: "sint (Height (bestBlock b)) < 2 ^ 31 - 1"
    and hashes: "\<forall>h \<in> set (int32Range (sint ca + 1) (sint (Height (bestBlock b)))).
        GetBlockHash c (scast h) = Inr (hs h)"
  shows "\<exists>b'. registerEpoch sched c msg b = Some b' \<and>
       map_of (blockEpochClients b') (epochID msg) =
         Some (msg\<lparr>epochQueue := epochQueue msg @
                 epochsOf hs (int32Range (sint ca + 1) (sint (Height (bestBlock b))))\<rparr>) \<and>
       errorLog b' = errorLog b"
proof -
  let ?T = "Height (bestBlock b)"
  let ?cl = "AList.update (epochID msg) msg (blockEpochClients b)"
  let ?b1 = "b\<lparr>blockEpochClients := ?cl\<rparr>"
  from ca have succ: "sint (ca + 1) = sint ca + 1" by (rule sint_succ32)
  from catchUpStartingHeight_of_ancestor [OF h0 anc]
  have start: "catchUpStartingHeight c B = Some (Inr (ca + 1))" .
  from hashes succ
  have hashes': "\<forall>h \<in> set (int32Range (sint (ca + 1)) (sint ?T)).
        GetBlockHash c (scast h) = Inr (hs h)" by simp
  have look: "map_of ?cl (epochID msg) = Some msg" by (simp add: update_conv')
  from clientCatchUpLoop_all [OF top run refl hashes' look live, of sched] succ
  obtain clients' where
    loop: "clientCatchUpLoop sched c (quit b) ?T (ca + 1) ?cl = Some (None, clients')"
    and sub: "map_of clients' (epochID msg) =
      Some (msg\<lparr>epochQueue := epochQueue msg @ epochsOf hs (int32Range (sint ca + 1) (sint ?T))\<rparr>)"
    by auto
  have "registerEpoch sched c msg b = Some (?b1\<lparr>blockEpochClients := clients'\<rparr>)"
    using best start loop by (simp add: registerEpoch_def catchUpClientOnBlocks_def)
  with sub show ?thesis by simp
qed

lemma registerEpoch_stops:
  fixes k :: int32
  assumes run: "\<not> quit b" and live: "\<not> cancelChanClosed msg"
    and best: "regBestBlock msg = Some B"
    and h0: "GetBlockHash c (scast (Height B)) = Inr h0"
    and anc: "((Hash B = None \<or> Hash B = Some h0) \<and> ca = Height B) \<or>
      (\<exists>hb n x. Hash B = Some hb \<and> hb \<noteq> h0 \<and> lockstepWalk c n hb h0 = Some x \<and>
            heightOfCommon c x = Inr ca)"
    and ck: "sint ca < sint k" and kt: "sint k \<le> sint (Height (bestBlock b))"
    and hashes: "\<forall>h \<in> set (int32Range (sint ca + 1) (sint k - 1)).
        GetBlockHash c (scast h) = Inr (hs h)"
    and fail: "GetBlockHash c (scast k) = Inl e"
  shows "\<exists>b'. registerEpoch sched c msg b = Some b' \<and>
       map_of (blockEpochClients b') (epochID msg) =
         Some (msg\<lparr>epochQueue := epochQueue msg @
                 epochsOf hs (int32Range (sint ca + 1) (sint k - 1))\<rparr>) \<and>
       errorLog b' = errorLog b @ [Errorf ''unable to find blockhash for height'' e]"
proof -
  let ?cl = "AList.update (epochID msg) msg (blockEpochClients b)"
  let ?b1 = "b\<lparr>blockEpochClients := ?cl\<rparr>"
  have "sint k < 2 ^ 31" using sint_lt [of k] by simp
  with ck have "sint ca < 2 ^ 31 - 1" by simp
  then have succ: "sint (ca + 1) = sint ca + 1" by (rule sint_succ32)
  from catchUpStartingHeight_of_ancestor [OF h0 anc]
  have start: "catchUpStartingHeight c B = Some (Inr (ca + 1))" .
  from hashes succ
  have hashes': "\<forall>h \<in> set (int32Range (sint (ca + 1)) (sint k - 1)).
        GetBlockHash c (scast h) = Inr (hs h)" by simp
  from ck succ have le: "sint (ca + 1) \<le> sint k" by simp
  have look: "map_of ?cl (epochID msg) = Some msg" by (simp add: update_conv')
  from clientCatchUpLoop_stops [OF kt fail run refl le hashes' look live, of sched] succ
  obtain clients' where
    loop: "clientCatchUpLoop sched c (quit b) (Height (bestBlock b)) (ca + 1) ?cl
      = Some (Some (Errorf ''unable to find blockhash for height'' e), clients')"
    and sub: "map_of clients' (epochID msg) =
      Some (msg\<lparr>epochQueue := epochQueue msg @ epochsOf hs (int32Range (sint ca + 1) (sint k - 1))\<rparr>)"
    by auto
  have "registerEpoch sched c msg b =
      Some (logError (Errorf ''unable to find blockhash for height'' e)
              (?b1\<lparr>blockEpochClients := clients'\<rparr>))"
    using best start loop by (simp add: registerEpoch_def catchUpClientOnBlocks_def)
  with sub show ?thesis by (simp add: logError_def)
qed

text \<open>
  C1, as amended. An epoch registration without a best block is stored and nothing
  is enqueued. For a registration with best block \<open>B\<close>, handled while \<open>quit\<close> is
  open, the registration's \<open>cancelChan\<close> is open and the notifier's best block has
  height \<open>T\<close>, the code first asks the backend for its hash \<open>h0\<close> at the height of
  \<open>B\<close> (also when \<open>B\<close> has no hash). Let \<open>ca\<close> be the height of the common
  ancestor of \<open>B\<close> and the backend's chain: the height of \<open>B\<close> when \<open>h0\<close> is the hash
  of \<open>B\<close> or \<open>B\<close> has no hash, and otherwise the height, by the verbose header, of
  the first common hash met when the hash of \<open>B\<close> and \<open>h0\<close> are walked back in
  lockstep. With \<open>ca\<close> and \<open>T\<close> below the largest \<open>int32\<close>:

    \<^item> if the backend gives the hash of every height from \<open>ca + 1\<close> to \<open>T\<close>, the
      subscriber's queue receives exactly one epoch per height from \<open>ca + 1\<close> to
      \<open>T\<close> in ascending order, \<open>T - ca\<close> in all and none when \<open>ca\<close> is not below
      \<open>T\<close>, and no error is logged;

    \<^item> if the backend gives the hashes up to \<open>k - 1\<close> and fails at a height \<open>k\<close>
      not above \<open>T\<close>, the subscriber receives the epochs from \<open>ca + 1\<close> to \<open>k - 1\<close>
      only and the error is logged;

    \<^item> if the lookup of \<open>h0\<close> itself fails, nothing is enqueued and the error is
      logged.
\<close>

theorem C1_client_catch_up:
  assumes run: "\<not> quit b" and live: "\<not> cancelChanClosed msg"
  shows
  "(regBestBlock msg = None \<longrightarrow>
      registerEpoch sched c msg b =
        Some (b\<lparr>blockEpochClients := AList.update (epochID msg) msg (blockEpochClients b)\<rparr>)) \<and>
   (regBestBlock msg = Some B \<longrightarrow>
    GetBlockHash c (scast (Height B)) = Inr h0 \<longrightarrow>
    ((Hash B = None \<or> Hash B = Some h0) \<and> ca = Height B) \<or>
      (\<exists>hb n x. Hash B = Some hb \<and> hb \<noteq> h0 \<and> lockstepWalk c n hb h0 = Some x \<and>
            heightOfCommon c x = Inr ca) \<longrightarrow>
    sint ca < 2 ^ 31 - 1 \<longrightarrow>
    sint (Height (bestBlock b)) < 2 ^ 31 - 1 \<longrightarrow>
    (\<forall>h \<in> set (int32Range (sint ca + 1) (sint (Height (bestBlock b)))).
        GetBlockHash c (scast h) = Inr (hs h)) \<longrightarrow>
    (\<exists>b'. registerEpoch sched c msg b = Some b' \<and>
       map_of (blockEpochClients b') (epochID msg) =
         Some (msg\<lparr>epochQueue := epochQueue msg @
                 epochsOf hs (int32Range (sint ca + 1) (sint (Height (bestBlock b))))\<rparr>) \<and>
       length (epochsOf hs (int32Range (sint ca + 1) (sint (Height (bestBlock b)))))
         = nat (sint (Height (bestBlock b)) - sint ca) \<and>
       errorLog b' = errorLog b)) \<and>
   (regBestBlock msg = Some B \<longrightarrow>
    GetBlockHash c (scast (Height B)) = Inr h0 \<longrightarrow>
    ((Hash B = None \<or> Hash B = Some h0) \<and> ca = Height B) \<or>
      (\<exists>hb n x. Hash B = Some hb \<and> hb \<noteq> h0 \<and> lockstepWalk c n hb h0 = Some x \<and>
            heightOfCommon c x = Inr ca) \<longrightarrow>
    sint ca < sint (k :: int32) \<longrightarrow>
    sint k \<le> sint (Height (bestBlock b)) \<longrightarrow>
    (\<forall>h \<in> set (int32Range (sint ca + 1) (sint k - 1)).
        GetBlockHash c (scast h) = Inr (hs h)) \<longrightarrow>
    GetBlockHash c (scast k) = Inl e \<longrightarrow>
    (\<exists>b'. registerEpoch sched c msg b = Some b' \<and>
       map_of (blockEpochClients b') (epochID msg) =
         Some (msg\<lparr>epochQueue := epochQueue msg @
                 epochsOf hs (int32Range (sint ca + 1) (sint k - 1))\<rparr>) \<and>
       errorLog b' = errorLog b @ [Errorf ''unable to find blockhash for height'' e])) \<and>
   (regBestBlock msg = Some B \<longrightarrow>
    GetBlockHash c (scast (Height B)) = Inl e \<longrightarrow>
    registerEpoch sched c msg b =
      Some (logError (Errorf ''unable to find blockhash for height'' e)
              (b\<lparr>blockEpochClients :=
                   AList.update (epochID msg) msg (blockEpochClients b)\<rparr>)))"
proof (intro conjI impI)
  assume "regBestBlock msg = None"
  then show "registerEpoch sched c msg b =
        Some (b\<lparr>blockEpochClients := AList.update (epochID msg) msg (blockEpochClients b)\<rparr>)"
    by (simp add: registerEpoch_def catchUpClientOnBlocks_def)
next
  let ?T = "Height (bestBlock b)"
  let ?es = "epochsOf hs (int32Range (sint ca + 1) (sint ?T))"
  assume best: "regBestBlock msg = Some B"
    and h0: "GetBlockHash c (scast (Height B)) = Inr h0"
    and anc: "((Hash B = None \<or> Hash B = Some h0) \<and> ca = Height B) \<or>
      (\<exists>hb n x. Hash B = Some hb \<and> hb \<noteq> h0 \<and> lockstepWalk c n hb h0 = Some x \<and>
            heightOfCommon c x = Inr ca)"
    and ca: "sint ca < 2 ^ 31 - 1" and top: "sint ?T < 2 ^ 31 - 1"
    and hashes: "\<forall>h \<in> set (int32Range (sint ca + 1) (sint ?T)).
        GetBlockHash c (scast h) = Inr (hs h)"
  have len: "length ?es = nat (sint ?T - sint ca)"
    by (simp add: epochsOf_def length_int32Range)
  from registerEpoch_all [OF run live best h0 anc ca top hashes, of sched] len
  show "\<exists>b'. registerEpoch sched c msg b = Some b' \<and>
       map_of (blockEpochClients b') (epochID msg) =
         Some (msg\<lparr>epochQueue := epochQueue msg @ ?es\<rparr>) \<and>
       length ?es = nat (sint ?T - sint ca) \<and>
       errorLog b' = errorLog b"
    by blast
next
  assume "regBestBlock msg = Some B" "GetBlockHash c (scast (Height B)) = Inr h0"
    "((Hash B = None \<or> Hash B = Some h0) \<and> ca = Height B) \<or>
      (\<exists>hb n x. Hash B = Some hb \<and> hb \<noteq> h0 \<and> lockstepWalk c n hb h0 = Some x \<and>
            heightOfCommon c x = Inr ca)"
    "sint ca < sint k" "sint k \<le> sint (Height (bestBlock b))"
    "\<forall>h \<in> set (int32Range (sint ca + 1) (sint k - 1)).
        GetBlockHash c (scast h) = Inr (hs h)"
    "GetBlockHash c (scast k) = Inl e"
  with run live show "\<exists>b'. registerEpoch sched c msg b = Some b' \<and>
       map_of (blockEpochClients b') (epochID msg) =
         Some (msg\<lparr>epochQueue := epochQueue msg @
                 epochsOf hs (int32Range (sint ca + 1) (sint k - 1))\<rparr>) \<and>
       errorLog b' = errorLog b @ [Errorf ''unable to find blockhash for height'' e]"
    by (rule registerEpoch_stops)
next
  assume "regBestBlock msg = Some B" "GetBlockHash c (scast (Height B)) = Inl e"
  then show "registerEpoch sched c msg b =
      Some (logError (Errorf ''unable to find blockhash for height'' e)
              (b\<lparr>blockEpochClients :=
                   AList.update (epochID msg) msg (blockEpochClients b)\<rparr>))"
    by (simp add: registerEpoch_def catchUpClientOnBlocks_def catchUpStartingHeight_def)
qed

theorem C1_client_catch_up_witness:
  "\<not> quit bitcoindAt102 \<and> \<not> cancelChanClosed (epochClient 1 None) \<and>
   registerEpoch takeSend lineChain (epochClient 1 None) bitcoindAt102 =
     Some (bitcoindAt102\<lparr>blockEpochClients := [(1, epochClient 1 None)]\<rparr>) \<and>
   (\<exists>b'. registerEpoch takeSend lineChain (epochClient 1 (Some block100)) bitcoindAt102 = Some b' \<and>
         map_of (blockEpochClients b') 1 =
           Some ((epochClient 1 (Some block100))
                   \<lparr>epochQueue := [\<lparr>Height = 101, Hash = Some 3101\<rparr>,
                                   \<lparr>Height = 102, Hash = Some 3102\<rparr>]\<rparr>) \<and>
         errorLog b' = []) \<and>
   (\<exists>b'. registerEpoch takeSend forkedChain (epochClient 1 (Some staleBlock100)) bitcoindAt102
           = Some b' \<and>
         map_of (blockEpochClients b') 1 =
           Some ((epochClient 1 (Some staleBlock100))
                   \<lparr>epochQueue := [\<lparr>Height = 99, Hash = Some 3099\<rparr>,
                                   \<lparr>Height = 100, Hash = Some 3100\<rparr>,
                                   \<lparr>Height = 101, Hash = Some 3101\<rparr>,
                                   \<lparr>Height = 102, Hash = Some 3102\<rparr>]\<rparr>) \<and>
         errorLog b' = []) \<and>
   (\<exists>b'. registerEpoch takeSend lineChain (epochClient 1 (Some block105)) bitcoindAt102 = Some b' \<and>
         map_of (blockEpochClients b') 1 = Some (epochClient 1 (Some block105)) \<and>
         errorLog b' = []) \<and>
   (\<exists>b'. registerEpoch takeSend flakyChain (epochClient 1 (Some block100)) bitcoindAt102 = Some b' \<and>
         map_of (blockEpochClients b') 1 =
           Some ((epochClient 1 (Some block100))
                   \<lparr>epochQueue := [\<lparr>Height = 101, Hash = Some 3101\<rparr>]\<rparr>) \<and>
         errorLog b' = [Errorf ''unable to find blockhash for height''
                          (BackendError ''request timed out'')]) \<and>
   registerEpoch takeSend noBackend (epochClient 1 (Some block100)) bitcoindAt102 =
     Some (bitcoindAt102\<lparr>blockEpochClients := [(1, epochClient 1 (Some block100))],
             errorLog := [Errorf ''unable to find blockhash for height''
                            (BackendError ''no hash'')]\<rparr>)"
proof -
  have run: "\<not> quit bitcoindAt102" by (simp add: bitcoindAt102_fields)
  have live: "\<not> cancelChanClosed (epochClient eid best)" for eid best
    by (simp add: epochClient_def)
  have rng: "int32Range 101 102 = [101, 102]" "int32Range 99 102 = [99, 100, 101, 102]"
    "int32Range 106 102 = []" "int32Range 101 101 = [101]"
    by (simp_all add: int32Range_def upto_rec1)
  have walk: "\<exists>n x. lockstepWalk forkedChain n 9100 3100 = Some x \<and>
                heightOfCommon forkedChain x = Inr 98"
    by (rule exI [of _ "Suc (Suc 0)"], rule exI [of _ 3098])
       (simp add: forkedChain_fields heightOfCommon_def)
  from C1_client_catch_up [OF run live [of 1 None], where c = lineChain
      and sched = takeSend]
  have none: "registerEpoch takeSend lineChain (epochClient 1 None) bitcoindAt102 =
     Some (bitcoindAt102\<lparr>blockEpochClients := [(1, epochClient 1 None)]\<rparr>)"
    by (simp add: epochClient_def bitcoindAt102_fields)
  from C1_client_catch_up [OF run live [of 1 "Some block100"], where c = lineChain and sched = takeSend and B = block100 and ?h0.0 = 3100 and ca = 100
      and hs = lineHash]
  have line: "\<exists>b'. registerEpoch takeSend lineChain (epochClient 1 (Some block100)) bitcoindAt102
           = Some b' \<and>
         map_of (blockEpochClients b') 1 =
           Some ((epochClient 1 (Some block100))
                   \<lparr>epochQueue := [\<lparr>Height = 101, Hash = Some 3101\<rparr>,
                                   \<lparr>Height = 102, Hash = Some 3102\<rparr>]\<rparr>) \<and>
         errorLog b' = []"
    by (simp add: epochClient_def bitcoindAt102_fields block100_def lineChain_fields rng
        epochsOf_def lineHash_def)
  from C1_client_catch_up [OF run live [of 1 "Some staleBlock100"], where c = forkedChain and sched = takeSend and B = staleBlock100 and ?h0.0 = 3100
      and ca = 98 and hs = lineHash] walk
  have fork: "\<exists>b'. registerEpoch takeSend forkedChain (epochClient 1 (Some staleBlock100))
             bitcoindAt102 = Some b' \<and>
         map_of (blockEpochClients b') 1 =
           Some ((epochClient 1 (Some staleBlock100))
                   \<lparr>epochQueue := [\<lparr>Height = 99, Hash = Some 3099\<rparr>,
                                   \<lparr>Height = 100, Hash = Some 3100\<rparr>,
                                   \<lparr>Height = 101, Hash = Some 3101\<rparr>,
                                   \<lparr>Height = 102, Hash = Some 3102\<rparr>]\<rparr>) \<and>
         errorLog b' = []"
    by (simp add: epochClient_def bitcoindAt102_fields staleBlock100_def forkedChain_fields rng
        epochsOf_def lineHash_def heightOfCommon_def)
  from C1_client_catch_up [OF run live [of 1 "Some block105"], where c = lineChain and sched = takeSend and B = block105 and ?h0.0 = 3105 and ca = 105
      and hs = lineHash]
  have ahead: "\<exists>b'. registerEpoch takeSend lineChain (epochClient 1 (Some block105)) bitcoindAt102
           = Some b' \<and>
         map_of (blockEpochClients b') 1 = Some (epochClient 1 (Some block105)) \<and>
         errorLog b' = []"
    by (simp add: epochClient_def bitcoindAt102_fields block105_def lineChain_fields rng
        epochsOf_def)
  from C1_client_catch_up [OF run live [of 1 "Some block100"], where c = flakyChain and sched = takeSend and B = block100 and ?h0.0 = 3100 and ca = 100
      and hs = lineHash and k = 102 and e = "BackendError ''request timed out''"]
  have flaky: "\<exists>b'. registerEpoch takeSend flakyChain (epochClient 1 (Some block100))
             bitcoindAt102 = Some b' \<and>
         map_of (blockEpochClients b') 1 =
           Some ((epochClient 1 (Some block100))
                   \<lparr>epochQueue := [\<lparr>Height = 101, Hash = Some 3101\<rparr>]\<rparr>) \<and>
         errorLog b' = [Errorf ''unable to find blockhash for height''
                          (BackendError ''request timed out'')]"
    by (simp add: epochClient_def bitcoindAt102_fields block100_def flakyChain_fields rng
        epochsOf_def lineHash_def)
  from C1_client_catch_up [OF run live [of 1 "Some block100"], where c = noBackend and sched = takeSend and B = block100
      and e = "BackendError ''no hash''"]
  have deaf: "registerEpoch takeSend noBackend (epochClient 1 (Some block100)) bitcoindAt102 =
     Some (bitcoindAt102\<lparr>blockEpochClients := [(1, epochClient 1 (Some block100))],
             errorLog := [Errorf ''unable to find blockhash for height''
                            (BackendError ''no hash'')]\<rparr>)"
    by (simp add: epochClient_def bitcoindAt102_fields block100_def noBackend_def logError_def)
  from run live none line fork ahead flaky deaf show ?thesis by simp
qed

text \<open>
  C1 as stated fails in three ways. First, when a lookup fails: the client's best
  block is the chain's block of height 100 and the tip has height 102, so two epochs
  are due, but the backend does not answer for height 102 and the subscriber is sent
  the epoch of height 101 only. Second, when the notifier's tip is not on the
  backend's chain: the client's best block is the notifier's own best block, the
  stale block of height 100, so that their common ancestor is that block and no
  epoch is due; every lookup succeeds, and the subscriber is sent the backend's
  blocks of heights 99 and 100, because the ancestor is taken against the backend's
  chain. Third, when \<open>quit\<close> is closed: \<open>Stop\<close> has closed it and waits for the
  dispatcher, which still takes the registration; two epochs are due, the
  \<open>select\<close> of \<open>notifyBlockEpochs\<close> takes the \<open>quit\<close> case and nothing is enqueued.
\<close>

theorem C1_client_catch_up_counterexample:
  "regBestBlock (epochClient 1 (Some block100)) = Some block100 \<and>
   GetBlockHash flakyChain (scast (Height block100)) = Inr 3100 \<and>
   Hash block100 = Some 3100 \<and>
   Height (bestBlock bitcoindAt102) = 102 \<and>
   \<not> quit bitcoindAt102 \<and>
   map_option epochHeights
     (registerEpoch takeSend flakyChain (epochClient 1 (Some block100)) bitcoindAt102)
     = Some [(1, [101])] \<and>
   bestBlock staleAt100 = staleBlock100 \<and> \<not> quit staleAt100 \<and>
   map_option (\<lambda>b'. (epochHeights b', errorLog b'))
     (registerEpoch takeSend forkedChain (epochClient 1 (Some staleBlock100)) staleAt100)
     = Some ([(1, [99, 100])], []) \<and>
   quit stoppingAt102 \<and> bestBlock stoppingAt102 = bestBlock bitcoindAt102 \<and>
   map_option (\<lambda>b'. (epochHeights b', errorLog b'))
     (registerEpoch takeQuit lineChain (epochClient 1 (Some block100)) stoppingAt102)
     = Some ([(1, [])], [])"
  by (simp add: epochClient_def block100_def staleBlock100_def flakyChain_fields
      lineChain_fields forkedChain_fields forkedChain_ancestor bitcoindAt102_fields
      staleAt100_fields stoppingAt102_def
      registerEpoch_def catchUpClientOnBlocks_def catchUpStartingHeight_def
      clientCatchUpLoop.simps notifyBlockEpochs_def selectEpochCase_def takeSend_def
      takeQuit_def epochHeights_def logError_def)

section \<open>Block connection and epochs\<close>

lemma handleBlockConnected_bestBlock:
  "handleBlockConnected sched ops c h hash b = Inr b' \<Longrightarrow> bestBlock b' = bestBlock b"
  by (auto simp: handleBlockConnected_def split: sum.splits)

lemma missedBlocksLoop_bestBlock:
  "bestBlock (snd (missedBlocksLoop sched ops c newHeight height b)) = bestBlock b"
proof (induction sched ops c newHeight height b rule: missedBlocksLoop.induct)
  case (1 sched ops c newHeight height b)
  show ?case
  proof (cases "height <s newHeight")
    case False
    then show ?thesis by (subst missedBlocksLoop.simps) simp
  next
    case True
    show ?thesis
    proof (cases "GetBlockHash c (scast height)")
      case (Inl err)
      with True show ?thesis by (subst missedBlocksLoop.simps) simp
    next
      case (Inr hash)
      show ?thesis
      proof (cases "handleBlockConnected sched ops c height hash b")
        case (Inl err)
        with True Inr show ?thesis by (subst missedBlocksLoop.simps) simp
      next
        case inr: (Inr b1)
        from "1.IH" [OF True Inr inr] handleBlockConnected_bestBlock [OF inr]
        have "bestBlock (snd (missedBlocksLoop sched ops c newHeight (height + 1) b1)) = bestBlock b"
          by simp
        with True Inr inr show ?thesis by (subst missedBlocksLoop.simps) simp
      qed
    qed
  qed
qed

lemma catchUpOnMissedBlocks_bestBlock:
  "catchUpOnMissedBlocks sched ops c newHeight b = Some (e, b') \<Longrightarrow> bestBlock b' = bestBlock b"
  using missedBlocksLoop_bestBlock [of sched ops c newHeight _ b]
  by (auto simp: catchUpOnMissedBlocks_def split: option.splits sum.splits)
     (metis snd_conv)


lemma failed_catch_up_drops_the_message:
  assumes gap: "height \<noteq> Height (bestBlock b) + 1"
    and f: "catchUpOnMissedBlocks sched ops c height b = Some (Some e, b')"
  shows "notificationDispatcher sched ops c (ChainNtfn (BlockConnected height hash)) b =
            Some (Inr (logError e b'))"
    and "bestBlock (logError e b') = bestBlock b"
proof -
  from gap f show "notificationDispatcher sched ops c (ChainNtfn (BlockConnected height hash)) b =
            Some (Inr (logError e b'))"
    by (simp add: notificationDispatcher_def handleChainNtfn_def blockConnected_def)
  from catchUpOnMissedBlocks_bestBlock [OF f]
  show "bestBlock (logError e b') = bestBlock b"
    by (simp add: logError_def)
qed

text \<open>
  C4 (the code departs from the claim). The notifier was started at the block 9100
  of height 100, so its confirmation notifier is at height 100 too, and a client
  registers for epochs. The backend's chain has since been reorganised: above the
  block of height 98 it has the blocks 3099, 3100, 3101 and its tip 3102. The
  dispatcher receives \<open>BlockConnected(102, 3102)\<close>. The catch-up finds the common
  ancestor at height 98 and starts the replay at height 99 without disconnecting
  the blocks of heights 100 and 99 first, and \<open>ConnectTip\<close>, which takes the block
  of height 101 only, refuses it. The catch-up fails, the error is logged and the
  message is dropped: no block of the new chain is replayed,
  \<open>handle_block_connected\<close> is not invoked for the new tip, the client is sent
  nothing and the best block stays the stale one, so that the next block meets the
  same refusal.
\<close>

theorem C4_reorg_replay_without_disconnect:
  "bestBlock staleAt100 = \<lparr>Height = 100, Hash = Some 9100\<rparr> \<and>
   txConfNotifier staleAt100 = 100 \<and> \<not> quit staleAt100 \<and>
   GetBlockHash forkedChain 100 = Inr 3100 \<and>
   getCommonBlockAncestorHeight forkedChain 9100 3100 = Some (Inr 98) \<and>
   dispatchAll takeSend heightOnlyTxConfNotifier forkedChain
     [RegisterMsg (RegEpoch (epochClient 1 None)),
      ChainNtfn (BlockConnected 102 3102)]
     staleAt100
   = Some (Inr (staleAt100\<lparr>blockEpochClients := [(1, epochClient 1 None)],
        errorLog :=
          [Errorf ''error on handling connected block''
             (Errorf ''unable to connect tip'' (ErrorsNew ''Received blocks out of order''))]\<rparr>)) \<and>
   dispatchAll takeSend heightOnlyTxConfNotifier forkedChain
     [RegisterMsg (RegEpoch (epochClient 1 None)),
      ChainNtfn (BlockConnected 102 3102),
      ChainNtfn (BlockConnected 103 3103)]
     staleAt100
   = Some (Inr (staleAt100\<lparr>blockEpochClients := [(1, epochClient 1 None)],
        errorLog :=
          [Errorf ''error on handling connected block''
             (Errorf ''unable to connect tip'' (ErrorsNew ''Received blocks out of order'')),
           Errorf ''error on handling connected block''
             (Errorf ''unable to connect tip'' (ErrorsNew ''Received blocks out of order''))]\<rparr>))"
  by (simp add: notificationDispatcher_def handleRegisterMsg_def handleChainNtfn_def
      registerEpoch_def catchUpClientOnBlocks_def blockConnected_def
      catchUpOnMissedBlocks_def catchUpStartingHeight_def missedBlocksLoop.simps
      handleBlockConnected_def forkedChain_fields heightOnly_fields staleAt100_fields
      forkedChain_ancestor logError_def epochClient_def)

text \<open>
  C9. The dispatcher handles \<open>BlockConnected(height, hash)\<close>, the catch-up (if
  one is needed) has succeeded and left the notifier as \<open>b1\<close>, and then fetching
  the block fails or \<open>ConnectTip\<close> returns an error. The iteration ends normally,
  the error is appended to the log and nothing else is done about it: the best
  block is the new tip, while the confirmation notifier and the epoch queues are
  what they were before the connection was tried.
\<close>

theorem C9_tip_not_rolled_back:
  assumes pre: "(height = Height (bestBlock b) + 1 \<and> b1 = b) \<or>
                (height \<noteq> Height (bestBlock b) + 1 \<and>
                 catchUpOnMissedBlocks sched ops c height b = Some (None, b1))"
    and fail: "GetBlock c hash = Inl cause \<and> err = Errorf ''unable to get block'' cause \<or>
               (\<exists>rawBlock. GetBlock c hash = Inr rawBlock \<and>
                  ConnectTip ops (txConfNotifier b1) hash height (Transactions rawBlock)
                    = Inl cause \<and>
                  err = Errorf ''unable to connect tip'' cause)"
  shows "\<exists>b'. notificationDispatcher sched ops c (ChainNtfn (BlockConnected height hash)) b
                 = Some (Inr b') \<and>
              bestBlock b' = \<lparr>Height = height, Hash = Some hash\<rparr> \<and>
              txConfNotifier b' = txConfNotifier b1 \<and>
              blockEpochClients b' = blockEpochClients b1 \<and>
              errorLog b' = errorLog b1 @ [err]"
proof -
  let ?b2 = "b1\<lparr>bestBlock := \<lparr>Height = height, Hash = Some hash\<rparr>\<rparr>"
  from fail have "handleBlockConnected sched ops c height hash ?b2 = Inl err"
    by (auto simp: handleBlockConnected_def)
  then have new: "connectNewTip sched ops c height hash b1 = logError err ?b2"
    by (simp add: connectNewTip_def)
  from pre have "blockConnected sched ops c height hash b = Some (connectNewTip sched ops c height hash b1)"
    by (auto simp: blockConnected_def)
  with new show ?thesis
    by (simp add: notificationDispatcher_def handleChainNtfn_def logError_def)
qed

theorem C9_tip_not_rolled_back_witness:
  "notificationDispatcher takeSend heightOnlyTxConfNotifier noBackend
     (ChainNtfn (BlockConnected 101 3101)) bitcoindAt100
   = Some (Inr (bitcoindAt100\<lparr>bestBlock := \<lparr>Height = 101, Hash = Some 3101\<rparr>,
                  errorLog := [Errorf ''unable to get block'' (BackendError ''no block'')]\<rparr>)) \<and>
   txConfNotifier bitcoindAt100 = 100"
proof -
  have pre: "((101 :: int32) = Height (bestBlock bitcoindAt100) + 1 \<and> bitcoindAt100 = bitcoindAt100) \<or>
             ((101 :: int32) \<noteq> Height (bestBlock bitcoindAt100) + 1 \<and>
              catchUpOnMissedBlocks takeSend heightOnlyTxConfNotifier noBackend 101 bitcoindAt100
                = Some (None, bitcoindAt100))"
    by (simp add: bitcoindAt100_fields block100_def)
  have fail: "GetBlock noBackend 3101 = Inl (BackendError ''no block'') \<and>
       Errorf ''unable to get block'' (BackendError ''no block'')
         = Errorf ''unable to get block'' (BackendError ''no block'') \<or>
       (\<exists>rawBlock. GetBlock noBackend 3101 = Inr rawBlock \<and>
          ConnectTip heightOnlyTxConfNotifier (txConfNotifier bitcoindAt100) 3101 101
            (Transactions rawBlock) = Inl (BackendError ''no block'') \<and>
          Errorf ''unable to get block'' (BackendError ''no block'')
            = Errorf ''unable to connect tip'' (BackendError ''no block''))"
    by (simp add: noBackend_def)
  from C9_tip_not_rolled_back [OF pre fail]
  obtain b' where
    d: "notificationDispatcher takeSend heightOnlyTxConfNotifier noBackend
          (ChainNtfn (BlockConnected 101 3101)) bitcoindAt100 = Some (Inr b')"
    and f: "bestBlock b' = \<lparr>Height = 101, Hash = Some 3101\<rparr>"
      "txConfNotifier b' = txConfNotifier bitcoindAt100"
      "errorLog b' = errorLog bitcoindAt100
          @ [Errorf ''unable to get block'' (BackendError ''no block'')]"
    by blast
  have "notificationDispatcher takeSend heightOnlyTxConfNotifier noBackend
     (ChainNtfn (BlockConnected 101 3101)) bitcoindAt100
   = Some (Inr (bitcoindAt100\<lparr>bestBlock := \<lparr>Height = 101, Hash = Some 3101\<rparr>,
                  errorLog := [Errorf ''unable to get block'' (BackendError ''no block'')]\<rparr>))"
    by (simp add: notificationDispatcher_def handleChainNtfn_def blockConnected_def
        connectNewTip_def handleBlockConnected_def noBackend_def bitcoindAt100_fields
        block100_def logError_def)
  with d f show ?thesis by (simp add: bitcoindAt100_fields)
qed

text \<open>
  C2 (the code departs from the claim). A first client registers without a best
  block at tip 100, blocks 101 and 102 are connected, then a second client registers
  with the block of height 100 as its best block. The catch-up of the second client
  goes through \<open>notifyBlockEpochs\<close>, which sends to every registered client: the
  first client is sent the heights 101, 102, 101, 102. \<open>quit\<close> and the clients'
  \<open>cancelChan\<close> are open throughout, so every \<open>select\<close> of \<open>notifyBlockEpochs\<close>
  can take the send only.
\<close>

theorem C2_epochs_repeat_after_another_registration:
  "map_option (map_sum (\<lambda>f. f) epochHeights)
     (dispatchAll takeSend heightOnlyTxConfNotifier lineChain
        [RegisterMsg (RegEpoch (epochClient 1 None)),
         ChainNtfn (BlockConnected 101 3101),
         ChainNtfn (BlockConnected 102 3102),
         RegisterMsg (RegEpoch (epochClient 2 (Some block100)))]
        bitcoindAt100)
   = Some (Inr [(1, [101, 102, 101, 102]), (2, [101, 102])])"
  by (simp add: notificationDispatcher_def handleRegisterMsg_def handleChainNtfn_def
      registerEpoch_def catchUpClientOnBlocks_def catchUpStartingHeight_def
      clientCatchUpLoop.simps blockConnected_def connectNewTip_def handleBlockConnected_def
      notifyBlockEpochs_def selectEpochCase_def takeSend_def Let_def heightOnly_fields
      lineChain_fields
      bitcoindAt100_fields epochClient_def block100_def epochHeights_def)

section \<open>The debug accessor\<close>

text \<open>
  C10 (the code departs from the claim). After \<open>UnsafeStart\<close> at a best block of
  height 100 the tip of the bitcoind notifier and of the btcd notifier is at height
  100, and \<open>GetBestHeight\<close> answers 0 for both: the two accessors return the
  constant 0 whatever the tip is.
\<close>

theorem C10_GetBestHeight_is_constant_zero:
  "Height (bestBlock bitcoindAt100) = 100 \<and> GetBestHeight bitcoindAt100 = 0 \<and>
   Height (btcdBestBlock btcdAt100) = 100 \<and> BtcdNotifier_GetBestHeight btcdAt100 = 0"
  by (simp add: bitcoindAt100_def btcdAt100_def UnsafeStart_def BtcdNotifier_UnsafeStart_def
      noBackend_def New_def block100_def GetBestHeight_def BtcdNotifier_GetBestHeight_def)

section \<open>Registration and shutdown\<close>

lemma Stop_completes:
  "Stop ops b = Inr b' \<Longrightarrow> stopped b = 0 \<Longrightarrow> quit b' \<and> \<not> dispatcherRunning b'"
  by (auto simp: Stop_def Let_def split: if_splits sum.splits)





end
